theory Spec2Isabelle
  imports Main
begin

section \<open>Component finder: a shallow embedding of \<^verbatim>\<open>run\<close>\<close>

text \<open>
  The repository holds two variants of one function \<^verbatim>\<open>run\<close>: \<^verbatim>\<open>src/main.ts\<close> and a second
  file of unknown name (\<^verbatim>\<open>part_000\<close>). Both read the action's inputs, validate the requested
  components, walk the search directories and warn about components. The steps they
  share are modelled once; where the variants differ there is one definition for each,
  named after its file.

  A string is a list of bytes holding UTF-8 text. Every character the program inspects
  (comma, colon, slash, the characters of the name pattern) is ASCII, and an ASCII byte
  never occurs inside a multi-byte UTF-8 sequence, so splitting and matching on bytes
  agrees with JavaScript's splitting and matching on UTF-16 code units.
\<close>

subsection \<open>String operations of the JavaScript runtime\<close>

text \<open>\<^verbatim>\<open>s.split(sep)\<close> for a one-character separator: never the empty list.\<close>

fun js_split :: "char \<Rightarrow> string \<Rightarrow> string list" where
  "js_split sep [] = [[]]"
| "js_split sep (c # cs) =
     (if c = sep then [] # js_split sep cs
      else (case js_split sep cs of
              [] \<Rightarrow> [[c]]
            | w # ws \<Rightarrow> (c # w) # ws))"

text \<open>\<^verbatim>\<open>xs.join(sep)\<close>.\<close>

fun js_join :: "string \<Rightarrow> string list \<Rightarrow> string" where
  "js_join sep [] = []"
| "js_join sep [x] = x"
| "js_join sep (x # y # ys) = x @ sep @ js_join sep (y # ys)"

text \<open>
  \<^verbatim>\<open>s.trim()\<close> removes white space and line terminators from both ends: the code points
  U+0009 to U+000D, U+0020, U+00A0, U+1680, U+2000 to U+200A, U+2028, U+2029, U+202F,
  U+205F, U+3000 and U+FEFF, listed here by their UTF-8 encodings.
\<close>

definition whiteSpace :: "string list" where
  "whiteSpace =
     [[CHR 0x09], [CHR 0x0A], [CHR 0x0B],
      [CHR 0x0C], [CHR 0x0D], [CHR 0x20],
      [CHR 0xC2, CHR 0xA0],
      [CHR 0xE1, CHR 0x9A, CHR 0x80],
      [CHR 0xE2, CHR 0x80, CHR 0x80],
      [CHR 0xE2, CHR 0x80, CHR 0x81],
      [CHR 0xE2, CHR 0x80, CHR 0x82],
      [CHR 0xE2, CHR 0x80, CHR 0x83],
      [CHR 0xE2, CHR 0x80, CHR 0x84],
      [CHR 0xE2, CHR 0x80, CHR 0x85],
      [CHR 0xE2, CHR 0x80, CHR 0x86],
      [CHR 0xE2, CHR 0x80, CHR 0x87],
      [CHR 0xE2, CHR 0x80, CHR 0x88],
      [CHR 0xE2, CHR 0x80, CHR 0x89],
      [CHR 0xE2, CHR 0x80, CHR 0x8A],
      [CHR 0xE2, CHR 0x80, CHR 0xA8],
      [CHR 0xE2, CHR 0x80, CHR 0xA9],
      [CHR 0xE2, CHR 0x80, CHR 0xAF],
      [CHR 0xE2, CHR 0x81, CHR 0x9F],
      [CHR 0xE3, CHR 0x80, CHR 0x80],
      [CHR 0xEF, CHR 0xBB, CHR 0xBF]]"

text \<open>The length of the white-space code point that \<open>s\<close> starts with, if it starts with one.\<close>

definition leadingWhiteSpace :: "string list \<Rightarrow> string \<Rightarrow> nat option" where
  "leadingWhiteSpace ws s =
     map_option length (List.find (\<lambda>w. w \<noteq> [] \<and> take (length w) s = w) ws)"

function trimWith :: "string list \<Rightarrow> string \<Rightarrow> string" where
  "trimWith ws s =
     (case leadingWhiteSpace ws s of
        None \<Rightarrow> s
      | Some n \<Rightarrow> trimWith ws (drop n s))"
  by pat_completeness auto

lemma take_whole_literal: "take (length w) s = w \<Longrightarrow> length w \<le> length s"
proof -
  assume "take (length w) s = w"
  then have "length (take (length w) s) = length w" by simp
  then show ?thesis by simp
qed

lemma leadingWhiteSpace_bounds:
  "leadingWhiteSpace ws s = Some n \<Longrightarrow> 0 < n \<and> n \<le> length s"
  by (auto simp: leadingWhiteSpace_def find_Some_iff dest: take_whole_literal)

termination trimWith
  by (relation "measure (\<lambda>(ws, s). length s)") (auto dest: leadingWhiteSpace_bounds)

declare trimWith.simps [simp del]

definition trimStart :: "string \<Rightarrow> string" where
  "trimStart s = trimWith whiteSpace s"

definition trimEnd :: "string \<Rightarrow> string" where
  "trimEnd s = rev (trimWith (map rev whiteSpace) (rev s))"

definition trim :: "string \<Rightarrow> string" where
  "trim s = trimEnd (trimStart s)"

subsection \<open>The two fixed patterns\<close>

text \<open>The character class \<^verbatim>\<open>[a-zA-Z0-9_\-.]\<close>.\<close>

definition componentChar :: "char \<Rightarrow> bool" where
  "componentChar c =
     (c \<in> set ''abcdefghijklmnopqrstuvwxyzABCDEFGHIJKLMNOPQRSTUVWXYZ0123456789_-.'')"

text \<open>
  \<^verbatim>\<open>validComponentRegex.test(s)\<close> for \<^verbatim>\<open>/^[a-zA-Z0-9_\-.]+(:[a-zA-Z0-9_\-.]+)?$/\<close>. The class
  does not contain the colon, so the greedy first group takes the longest prefix of
  class characters; what is left is empty, or a colon and one or more class characters.
\<close>

definition validComponentRegex_test :: "string \<Rightarrow> bool" where
  "validComponentRegex_test s =
     (let name = takeWhile componentChar s; rest = dropWhile componentChar s
      in name \<noteq> [] \<and>
         (case rest of
            [] \<Rightarrow> True
          | c # version \<Rightarrow> c = CHR '':'' \<and> version \<noteq> [] \<and> list_all componentChar version))"

text \<open>
  \<^verbatim>\<open>/^ya?ml$/\<close> on the rest of a name, shared by the two default manifest patterns
  \<^verbatim>\<open>/^component\.ya?ml$/\<close> (\<^verbatim>\<open>src/main.ts\<close>) and \<^verbatim>\<open>/^\.component\.ya?ml$/\<close> (\<^verbatim>\<open>part_000\<close>).
\<close>

definition matchLiteral :: "string \<Rightarrow> string \<Rightarrow> string option" where
  "matchLiteral lit s = (if take (length lit) s = lit then Some (drop (length lit) s) else None)"

definition matchOptional :: "string \<Rightarrow> string \<Rightarrow> string list" where
  "matchOptional lit s =
     (case matchLiteral lit s of None \<Rightarrow> [s] | Some r \<Rightarrow> [r, s])"

definition yamlSuffix_test :: "string \<Rightarrow> bool" where
  "yamlSuffix_test s =
     (case matchLiteral ''y'' s of
        None \<Rightarrow> False
      | Some r \<Rightarrow> list_ex (\<lambda>r'. matchLiteral ''ml'' r' = Some []) (matchOptional ''a'' r))"

definition defaultComponentFileNameRegex_main_test :: "string \<Rightarrow> bool" where
  "defaultComponentFileNameRegex_main_test file =
     (case matchLiteral ''component.'' file of
        None \<Rightarrow> False
      | Some r \<Rightarrow> yamlSuffix_test r)"

definition defaultComponentFileNameRegex_part_000_test :: "string \<Rightarrow> bool" where
  "defaultComponentFileNameRegex_part_000_test file =
     (case matchLiteral ''.component.'' file of
        None \<Rightarrow> False
      | Some r \<Rightarrow> yamlSuffix_test r)"

subsection \<open>The POSIX \<^verbatim>\<open>path\<close> module of Node.js\<close>

text \<open>
  \<^verbatim>\<open>path.isAbsolute\<close>, \<^verbatim>\<open>path.normalize\<close>, \<^verbatim>\<open>path.join\<close> and \<^verbatim>\<open>path.resolve\<close> belong to the
  runtime, not to the repository; they are modelled from Node's \<^verbatim>\<open>lib/path.js\<close> (POSIX).
  \<open>normalizeString\<close> works on the segments between slashes: empty segments and \<^verbatim>\<open>.\<close> are
  dropped, \<^verbatim>\<open>..\<close> removes the segment before it (or is kept, when nothing is left to remove
  and the path may climb above its start).
\<close>

definition path_isAbsolute :: "string \<Rightarrow> bool" where
  "path_isAbsolute p = (case p of [] \<Rightarrow> False | c # _ \<Rightarrow> c = CHR ''/'')"

fun normalizeString :: "bool \<Rightarrow> string list \<Rightarrow> string list \<Rightarrow> string list" where
  "normalizeString allowAboveRoot res [] = res"
| "normalizeString allowAboveRoot res (seg # segs) =
     (if seg = [] \<or> seg = ''.'' then normalizeString allowAboveRoot res segs
      else if seg = ''..'' then
        (if res \<noteq> [] \<and> last res \<noteq> ''..''
           then normalizeString allowAboveRoot (butlast res) segs
         else if allowAboveRoot
           then normalizeString allowAboveRoot (res @ [''..'']) segs
         else normalizeString allowAboveRoot res segs)
      else normalizeString allowAboveRoot (res @ [seg]) segs)"

definition path_normalize :: "string \<Rightarrow> string" where
  "path_normalize p =
     (if p = [] then ''.''
      else
        let isAbsolute = path_isAbsolute p;
            trailingSeparator = (last p = CHR ''/'');
            n = js_join ''/'' (normalizeString (\<not> isAbsolute) [] (js_split CHR ''/'' p))
        in if n = [] then (if isAbsolute then ''/'' else if trailingSeparator then ''./'' else ''.'')
           else
             let n' = (if trailingSeparator then n @ ''/'' else n)
             in if isAbsolute then ''/'' @ n' else n')"

definition path_join :: "string list \<Rightarrow> string" where
  "path_join args =
     (case filter (\<lambda>arg. arg \<noteq> []) args of
        [] \<Rightarrow> ''.''
      | joined \<Rightarrow> path_normalize (js_join ''/'' joined))"

text \<open>
  \<^verbatim>\<open>path.resolve\<close> reads its arguments from the right, then the working directory, until
  it has met an absolute one. The list given to \<open>resolve_loop\<close> is in that order.
\<close>

fun resolve_loop :: "string list \<Rightarrow> string \<Rightarrow> string \<times> bool" where
  "resolve_loop [] resolvedPath = (resolvedPath, False)"
| "resolve_loop (p # ps) resolvedPath =
     (if p = [] then resolve_loop ps resolvedPath
      else if path_isAbsolute p then (p @ ''/'' @ resolvedPath, True)
      else resolve_loop ps (p @ ''/'' @ resolvedPath))"

definition path_resolve :: "string \<Rightarrow> string list \<Rightarrow> string" where
  "path_resolve cwd args =
     (case resolve_loop (rev args @ [cwd]) [] of
        (resolvedPath, resolvedAbsolute) \<Rightarrow>
          let n = js_join ''/''
                    (normalizeString (\<not> resolvedAbsolute) [] (js_split CHR ''/'' resolvedPath))
          in if resolvedAbsolute then ''/'' @ n
             else if n \<noteq> [] then n else ''.'')"

subsection \<open>The action's environment, its output and the file system\<close>

text \<open>
  The inputs of the action are environment variables; \<open>None\<close> is an unset variable.
  \<open>cwd\<close> is what \<^verbatim>\<open>process.cwd()\<close> returns.
\<close>

record environment =
  INPUT_COMPONENTS :: "string option"
  INPUT_COMPONENT_SEARCH_DIRECTORIES :: "string option"
  INPUT_COMPONENT_FILE_NAME_REGEX :: "string option"
  GITHUB_WORKSPACE :: "string option"
  cwd :: string

text \<open>
  \<^verbatim>\<open>core.getInput(name, {required})\<close> of \<^verbatim>\<open>@actions/core\<close>: an unset variable reads as the
  empty string, a required input that is empty throws, and the value is trimmed.
  \<open>Inl\<close> carries the message of the thrown \<^verbatim>\<open>Error\<close>.
\<close>

definition getInput :: "string \<Rightarrow> string option \<Rightarrow> bool \<Rightarrow> string + string" where
  "getInput name var required =
     (let val = (case var of None \<Rightarrow> [] | Some v \<Rightarrow> v)
      in if required \<and> val = [] then Inl (''Input required and not supplied: '' @ name)
         else Inr (trim val))"

text \<open>
  What the run shows to the platform, in order: \<^verbatim>\<open>core.info\<close>, \<^verbatim>\<open>core.warning\<close>,
  \<^verbatim>\<open>core.error\<close>, \<^verbatim>\<open>core.setFailed\<close> and \<^verbatim>\<open>console.log\<close>.
\<close>

datatype log_line = Info string | Warning string | Error string | SetFailed string | ConsoleLog string

text \<open>
  The variables a run mutates: the lines written so far, \<^verbatim>\<open>componentMap\<close> and
  \<^verbatim>\<open>foundComponents\<close>. \<^verbatim>\<open>componentMap\<close> is the object literal \<^verbatim>\<open>{}\<close>; the map holds its own
  properties, \<open>None\<close> where it has none.
\<close>

record state =
  logs :: "log_line list"
  componentMap :: "string \<rightharpoonup> string"
  foundComponents :: "string list"

definition initial :: state where
  "initial = \<lparr>logs = [], componentMap = Map.empty, foundComponents = []\<rparr>"

definition emit :: "log_line \<Rightarrow> state \<Rightarrow> state" where
  "emit line st = st\<lparr>logs := logs st @ [line]\<rparr>"

text \<open>
  \<^verbatim>\<open>object[key] = value\<close> on an object literal, for a string \<open>value\<close>. The key \<^verbatim>\<open>__proto__\<close>
  names the accessor inherited from \<^verbatim>\<open>Object.prototype\<close>: the assignment runs its setter,
  which ignores a value that is not an object, and the object gets no property. Every
  other key becomes, or stays, an own property with the new value.
\<close>

definition setProperty ::
  "(string \<rightharpoonup> string) \<Rightarrow> string \<Rightarrow> string \<Rightarrow> (string \<rightharpoonup> string)" where
  "setProperty object key v = (if key = ''__proto__'' then object else object(key \<mapsto> v))"

text \<open>
  How a statement ends: normally, or by throwing an \<^verbatim>\<open>Error\<close> with a message. The
  \<^verbatim>\<open>catch\<close> block of \<^verbatim>\<open>run\<close> turns a thrown \<^verbatim>\<open>Error\<close> into \<^verbatim>\<open>core.setFailed(error.message)\<close>.
\<close>

datatype completion = Normal | Throw string

definition catch :: "completion \<times> state \<Rightarrow> state" where
  "catch r = (case r of (Normal, st) \<Rightarrow> st | (Throw message, st) \<Rightarrow> emit (SetFailed message) st)"

text \<open>
  A file is represented by what \<^verbatim>\<open>yaml.parse(fs.readFileSync(filePath, 'utf8'))\<close> does on
  it: the parser throws (\<open>YamlError\<close> with the message), or returns \<^verbatim>\<open>null\<close> (an empty
  document; reading \<^verbatim>\<open>.component\<close> of it throws a \<^verbatim>\<open>TypeError\<close>), or returns another value,
  of which only the property \<^verbatim>\<open>component\<close> is kept: \<open>Some s\<close> when it is the string \<open>s\<close>,
  \<open>None\<close> when it is \<^verbatim>\<open>undefined\<close> or not a string (then \<^verbatim>\<open>===\<close> with a string is false).
  A directory lists its entries in the order of \<^verbatim>\<open>fs.readdirSync\<close>. The tree is finite
  and has no symbolic links, and every file and directory in it can be read.
\<close>

datatype yaml = YamlError string | YamlNull | YamlValue "string option"

datatype node = File yaml | Dir "(string \<times> node) list"

text \<open>
  The file system answers for a path as the program wrote it (the operating system
  resolves it): \<open>None\<close> when nothing is there. The empty path names nothing.
\<close>

type_synonym filesystem = "string \<Rightarrow> node option"

definition lookup :: "filesystem \<Rightarrow> string \<Rightarrow> node option" where
  "lookup fs p = (if p = [] then None else fs p)"

subsection \<open>Step 1: validating the components\<close>

text \<open>
  The loop of \<^verbatim>\<open>src/main.ts\<close> lines 43 to 60 (\<^verbatim>\<open>part_000\<close> lines 74 to 91), the same in both
  files. \<open>newComponents\<close> is the list built so far.
\<close>

fun validateComponents :: "string list \<Rightarrow> string list \<Rightarrow> state \<Rightarrow> string list \<times> state" where
  "validateComponents [] newComponents st = (newComponents, st)"
| "validateComponents (component # rest) newComponents st =
     (if \<not> validComponentRegex_test component
        then validateComponents rest newComponents
               (emit (Error (''Invalid component name: '' @ component)) st)
      else
        (case js_split CHR '':'' component of
           name # version # _ \<Rightarrow>
             validateComponents rest (newComponents @ [name @ '':'' @ version])
               (emit (ConsoleLog (''Component: '' @ name @ '', Version: '' @ version)) st)
         | _ \<Rightarrow>
             validateComponents rest (newComponents @ [component @ '':latest''])
               (emit (ConsoleLog (''Component: '' @ component @ '', Version: latest'')) st)))"

subsection \<open>Step 2: finding the components\<close>

text \<open>\<^verbatim>\<open>c.split(':')[0]\<close>; the list that \<open>js_split\<close> returns is never empty.\<close>

definition specifierName :: "string \<Rightarrow> string" where
  "specifierName c = hd (js_split CHR '':'' c)"

text \<open>
  What the closure \<^verbatim>\<open>searchForComponent\<close> captures: whether each entry is logged
  (\<^verbatim>\<open>part_000\<close> line 118), the pattern tested on file names (\<^verbatim>\<open>componentFileNameRegex\<close> in
  \<^verbatim>\<open>src/main.ts\<close>, \<^verbatim>\<open>defaultComponentFileNameRegex\<close> in \<^verbatim>\<open>part_000\<close>), the list its inner loop
  reads (\<^verbatim>\<open>components\<close> in \<^verbatim>\<open>src/main.ts\<close>, \<^verbatim>\<open>newComponents\<close> in \<^verbatim>\<open>part_000\<close>) and the working
  directory that \<^verbatim>\<open>path.resolve\<close> falls back on.
\<close>

record scanner =
  logChecked :: bool
  fileNameRegex_test :: "string \<Rightarrow> bool"
  neededComponents :: "string list"
  workingDirectory :: string

text \<open>
  The inner loop (\<^verbatim>\<open>src/main.ts\<close> lines 98 to 104): for every needed component whose name
  is the declared one, the resolved path of the file is assigned to it in \<^verbatim>\<open>componentMap\<close>
  and the declared name is pushed.
\<close>

fun recordMatches :: "string \<Rightarrow> string list \<Rightarrow> string option \<Rightarrow> string \<Rightarrow> state \<Rightarrow> state" where
  "recordMatches wd [] component filePath st = st"
| "recordMatches wd (neededComponent # rest) component filePath st =
     (case component of
        None \<Rightarrow> recordMatches wd rest component filePath st
      | Some declared \<Rightarrow>
          if specifierName neededComponent = declared
            then recordMatches wd rest component filePath
                   (st\<lparr>componentMap :=
                         setProperty (componentMap st) neededComponent (path_resolve wd [filePath]),
                       foundComponents := foundComponents st @ [declared]\<rparr>)
          else recordMatches wd rest component filePath st)"

definition nullPropertyMessage :: string where
  "nullPropertyMessage =
     ''Cannot read properties of null (reading '' @ [CHR 0x27] @ ''component'' @ [CHR 0x27] @ '')''"

text \<open>
  The loop over the entries of a directory that exists (\<^verbatim>\<open>src/main.ts\<close> lines 88 to 106).
  The call \<^verbatim>\<open>searchForComponent(filePath)\<close> on an entry that \<^verbatim>\<open>statSync\<close> reports as a
  directory finds it existing and loops over its entries. A throw ends every enclosing loop.
\<close>

fun searchForComponent_files ::
  "scanner \<Rightarrow> string \<Rightarrow> (string \<times> node) list \<Rightarrow> state \<Rightarrow> completion \<times> state" where
  "searchForComponent_files sc dir [] st = (Normal, st)"
| "searchForComponent_files sc dir ((file, Dir entries) # files) st =
     (let filePath = path_join [dir, file];
          st1 = (if logChecked sc then emit (ConsoleLog (''Checking file: '' @ filePath)) st else st)
      in case searchForComponent_files sc filePath entries st1 of
           (Normal, st2) \<Rightarrow> searchForComponent_files sc dir files st2
         | (Throw message, st2) \<Rightarrow> (Throw message, st2))"
| "searchForComponent_files sc dir ((file, File content) # files) st =
     (let filePath = path_join [dir, file];
          st1 = (if logChecked sc then emit (ConsoleLog (''Checking file: '' @ filePath)) st else st)
      in if fileNameRegex_test sc file
           then (case content of
                   YamlError message \<Rightarrow> (Throw message, st1)
                 | YamlNull \<Rightarrow> (Throw nullPropertyMessage, st1)
                 | YamlValue component \<Rightarrow>
                     searchForComponent_files sc dir files
                       (recordMatches (workingDirectory sc) (neededComponents sc) component filePath st1))
         else searchForComponent_files sc dir files st1)"

text \<open>
  \<^verbatim>\<open>searchForComponent(dir)\<close> on a search directory: a warning when nothing is there;
  \<^verbatim>\<open>readdirSync\<close> throws on a path that is a file.
\<close>

definition notDirectoryMessage :: "string \<Rightarrow> string" where
  "notDirectoryMessage dir =
     ''ENOTDIR: not a directory, scandir '' @ [CHR 0x27] @ dir @ [CHR 0x27]"

definition searchForComponent ::
  "scanner \<Rightarrow> filesystem \<Rightarrow> string \<Rightarrow> state \<Rightarrow> completion \<times> state" where
  "searchForComponent sc fs dir st =
     (case lookup fs dir of
        None \<Rightarrow> (Normal, emit (Warning (''Directory '' @ dir @ '' does not exist'')) st)
      | Some (File content) \<Rightarrow> (Throw (notDirectoryMessage dir), st)
      | Some (Dir files) \<Rightarrow> searchForComponent_files sc dir files st)"

text \<open>The loop over the search directories (\<^verbatim>\<open>src/main.ts\<close> lines 113 to 115).\<close>

fun searchDirectories ::
  "scanner \<Rightarrow> filesystem \<Rightarrow> string list \<Rightarrow> state \<Rightarrow> completion \<times> state" where
  "searchDirectories sc fs [] st = (Normal, st)"
| "searchDirectories sc fs (searchDir # rest) st =
     (case searchForComponent sc fs searchDir st of
        (Normal, st1) \<Rightarrow> searchDirectories sc fs rest st1
      | (Throw message, st1) \<Rightarrow> (Throw message, st1))"

text \<open>
  The last loop (\<^verbatim>\<open>src/main.ts\<close> lines 118 to 122): \<open>names\<close> is the list mapped to the names,
  \<open>components\<close> the list that \<^verbatim>\<open>includes\<close> looks into.
\<close>

fun warnNotFound :: "string list \<Rightarrow> string list \<Rightarrow> state \<Rightarrow> state" where
  "warnNotFound components [] st = st"
| "warnNotFound components (component # names) st =
     warnNotFound components names
       (if component \<notin> set components
          then emit (Warning (''Component '' @ component @ '' not found'')) st
        else st)"

text \<open>
  Lines 109 to 111 of \<^verbatim>\<open>src/main.ts\<close> (137 to 139 of \<^verbatim>\<open>part_000\<close>): with no search directory,
  the working directory is pushed.
\<close>

definition defaultSearchDirectories :: "string \<Rightarrow> string list \<Rightarrow> string list" where
  "defaultSearchDirectories wd componentSearchDirectories =
     (if componentSearchDirectories = [] then componentSearchDirectories @ [wd]
      else componentSearchDirectories)"

text \<open>
  Lines 109 to 122 of \<^verbatim>\<open>src/main.ts\<close> (137 to 150 of \<^verbatim>\<open>part_000\<close>): the default directory,
  the scan and the warnings. Both files scan with, and warn about, one and the same list.
\<close>

definition findComponents ::
  "scanner \<Rightarrow> filesystem \<Rightarrow> string list \<Rightarrow> state \<Rightarrow> completion \<times> state" where
  "findComponents sc fs componentSearchDirectories st =
     (case searchDirectories sc fs
             (defaultSearchDirectories (workingDirectory sc) componentSearchDirectories) st of
        (Normal, st1) \<Rightarrow>
          (Normal, warnNotFound (neededComponents sc)
                     (map specifierName (neededComponents sc)) st1)
      | (Throw message, st1) \<Rightarrow> (Throw message, st1))"

subsection \<open>\<^verbatim>\<open>run\<close> of \<^verbatim>\<open>src/main.ts\<close>\<close>

text \<open>
  \<^verbatim>\<open>new RegExp(core.getInput('component-file-name-regex') || defaultComponentFileNameRegex.source)\<close>.
  The regular expression engine is a parameter: \<open>RegExp source\<close> is \<open>Inl\<close> with the message of
  the \<^verbatim>\<open>SyntaxError\<close>, or \<open>Inr\<close> with the \<^verbatim>\<open>test\<close> of the compiled pattern. Compiling the source
  of the default pattern gives the default pattern.
\<close>

definition componentFileNameRegex ::
  "(string \<Rightarrow> string + (string \<Rightarrow> bool)) \<Rightarrow> environment \<Rightarrow> string + (string \<Rightarrow> bool)" where
  "componentFileNameRegex RegExp env =
     (case getInput ''component-file-name-regex'' (INPUT_COMPONENT_FILE_NAME_REGEX env) False of
        Inl message \<Rightarrow> Inl message
      | Inr source \<Rightarrow>
          if source = [] then Inr defaultComponentFileNameRegex_main_test else RegExp source)"

definition findingMessage :: "string list \<Rightarrow> string list \<Rightarrow> string" where
  "findingMessage components componentSearchDirectories =
     (let prettyDirectories = (if componentSearchDirectories = [] then ''all directories''
                               else js_join '', '' componentSearchDirectories)
      in ''Finding components: '' @ js_join '', '' components @ '' in directories: ''
           @ prettyDirectories)"

text \<open>
  \<^verbatim>\<open>run\<close> up to the first call of \<^verbatim>\<open>searchForComponent\<close> (lines 16 to 76): \<open>Inl\<close> is the
  state in which the run has ended without scanning, \<open>Inr\<close> gives what the scan starts
  with: the closure's variables, \<^verbatim>\<open>componentSearchDirectories\<close> and the state.
\<close>

definition beforeScan_main_ts ::
  "(string \<Rightarrow> string + (string \<Rightarrow> bool)) \<Rightarrow> environment
     \<Rightarrow> state + (scanner \<times> string list \<times> state)" where
  "beforeScan_main_ts RegExp env =
     (case getInput ''components'' (INPUT_COMPONENTS env) True of
        Inl message \<Rightarrow> Inl (catch (Throw message, initial))
      | Inr componentsInput \<Rightarrow>
     (case getInput ''component-search-directories''
             (INPUT_COMPONENT_SEARCH_DIRECTORIES env) False of
        Inl message \<Rightarrow> Inl (catch (Throw message, initial))
      | Inr directoriesInput \<Rightarrow>
          let components = map trim (js_split CHR '','' componentsInput);
              componentSearchDirectories = map trim (js_split CHR '','' directoriesInput)
          in if components = []
               then Inl (emit (SetFailed ''No components provided to search for.'') initial)
             else
               (case validateComponents components []
                       (emit (Info (findingMessage components componentSearchDirectories)) initial) of
                  (newComponents, st) \<Rightarrow>
                    if newComponents = []
                      then Inl (emit (SetFailed ''No valid components provided to search for.'') st)
                    else
                      (case componentFileNameRegex RegExp env of
                         Inl message \<Rightarrow> Inl (catch (Throw message, st))
                       | Inr test \<Rightarrow>
                           Inr (\<lparr>logChecked = False, fileNameRegex_test = test,
                                 neededComponents = components,
                                 workingDirectory = cwd env\<rparr>,
                                componentSearchDirectories, st)))))"

definition run_main_ts ::
  "(string \<Rightarrow> string + (string \<Rightarrow> bool)) \<Rightarrow> environment \<Rightarrow> filesystem \<Rightarrow> state" where
  "run_main_ts RegExp env fs =
     (case beforeScan_main_ts RegExp env of
        Inl st \<Rightarrow> st
      | Inr (sc, componentSearchDirectories, st) \<Rightarrow>
          catch (findComponents sc fs componentSearchDirectories st))"

subsection \<open>\<^verbatim>\<open>run\<close> of \<^verbatim>\<open>part_000\<close>\<close>

text \<open>
  Lines 49 to 60: every search directory that is not absolute is replaced, in place, by
  \<^verbatim>\<open>path.resolve(repositoryPath, searchDir)\<close>.
\<close>

fun resolveSearchDirectories :: "string \<Rightarrow> string \<Rightarrow> string list \<Rightarrow> string list" where
  "resolveSearchDirectories wd repositoryPath [] = []"
| "resolveSearchDirectories wd repositoryPath (searchDir # rest) =
     (if \<not> path_isAbsolute searchDir then path_resolve wd [repositoryPath, searchDir]
      else searchDir) # resolveSearchDirectories wd repositoryPath rest"

text \<open>
  \<^verbatim>\<open>run\<close> up to the first call of \<^verbatim>\<open>searchForComponent\<close> (lines 16 to 102). The two calls
  \<^verbatim>\<open>components.filter(Boolean)\<close> and \<^verbatim>\<open>componentSearchDirectories.filter(Boolean)\<close> of lines
  26 to 32 return new arrays that nothing reads; both lists stay as they are.
\<close>

definition beforeScan_part_000 ::
  "environment \<Rightarrow> state + (scanner \<times> string list \<times> state)" where
  "beforeScan_part_000 env =
     (case getInput ''components'' (INPUT_COMPONENTS env) True of
        Inl message \<Rightarrow> Inl (catch (Throw message, initial))
      | Inr componentsInput \<Rightarrow>
     (case getInput ''component-search-directories''
             (INPUT_COMPONENT_SEARCH_DIRECTORIES env) False of
        Inl message \<Rightarrow> Inl (catch (Throw message, initial))
      | Inr directoriesInput \<Rightarrow>
          let components = map trim (js_split CHR '','' componentsInput);
              supplied = map trim (js_split CHR '','' directoriesInput)
          in if components = []
               then Inl (emit (SetFailed ''No components provided to search for.'') initial)
             else
               (case GITHUB_WORKSPACE env of
                  None \<Rightarrow> Inl (emit (SetFailed ''No repository path found.'') initial)
                | Some repositoryPath \<Rightarrow>
                    let componentSearchDirectories =
                          resolveSearchDirectories (cwd env) repositoryPath supplied
                    in case validateComponents components []
                              (emit (Info (findingMessage components componentSearchDirectories))
                                 initial) of
                         (newComponents, st) \<Rightarrow>
                           if newComponents = []
                             then Inl (emit (SetFailed
                                               ''No valid components provided to search for.'') st)
                           else
                             Inr (\<lparr>logChecked = True,
                                   fileNameRegex_test =
                                     defaultComponentFileNameRegex_part_000_test,
                                   neededComponents = newComponents,
                                   workingDirectory = cwd env\<rparr>,
                                  componentSearchDirectories, st))))"

definition run_part_000 :: "environment \<Rightarrow> filesystem \<Rightarrow> state" where
  "run_part_000 env fs =
     (case beforeScan_part_000 env of
        Inl st \<Rightarrow> st
      | Inr (sc, componentSearchDirectories, st) \<Rightarrow>
          catch (findComponents sc fs componentSearchDirectories st))"

subsection \<open>The specification's canonical form\<close>

text \<open>
  The canonical form of a token in the specification's words: with a colon, the name
  before the first colon and the version after it; without one, the token and the
  version \<^verbatim>\<open>latest\<close>.
\<close>

definition canonicalSpecifier :: "string \<Rightarrow> string" where
  "canonicalSpecifier token =
     (if CHR '':'' \<in> set token
        then takeWhile (\<lambda>c. c \<noteq> CHR '':'') token @ '':''
               @ tl (dropWhile (\<lambda>c. c \<noteq> CHR '':'') token)
      else token @ '':latest'')"

subsection \<open>The traversal order\<close>

text \<open>
  What a scan meets, in depth-first order with the entries of each directory in listing
  order: the files whose name the pattern accepts, each with its path and its content,
  and the search directories that turn out to be files. A search directory that does not
  exist contributes nothing.
\<close>

datatype visit = Manifest string yaml | NotDirectory string

fun visits :: "(string \<Rightarrow> bool) \<Rightarrow> string \<Rightarrow> (string \<times> node) list \<Rightarrow> visit list" where
  "visits test dir [] = []"
| "visits test dir ((file, Dir entries) # files) =
     visits test (path_join [dir, file]) entries @ visits test dir files"
| "visits test dir ((file, File content) # files) =
     (if test file then [Manifest (path_join [dir, file]) content] else [])
       @ visits test dir files"

definition rootVisits :: "(string \<Rightarrow> bool) \<Rightarrow> filesystem \<Rightarrow> string \<Rightarrow> visit list" where
  "rootVisits test fs dir =
     (case lookup fs dir of
        None \<Rightarrow> []
      | Some (File content) \<Rightarrow> [NotDirectory dir]
      | Some (Dir files) \<Rightarrow> visits test dir files)"

definition allVisits :: "(string \<Rightarrow> bool) \<Rightarrow> filesystem \<Rightarrow> string list \<Rightarrow> visit list" where
  "allVisits test fs dirs = concat (map (rootVisits test fs) dirs)"

text \<open>
  The visits at which something throws, with the message: a manifest that the parser
  rejects, a manifest that parses to \<^verbatim>\<open>null\<close>, a search directory that is a file.
\<close>

fun failure :: "visit \<Rightarrow> string option" where
  "failure (Manifest filePath (YamlError message)) = Some message"
| "failure (Manifest filePath YamlNull) = Some nullPropertyMessage"
| "failure (Manifest filePath (YamlValue component)) = None"
| "failure (NotDirectory dir) = Some (notDirectoryMessage dir)"

fun firstFailure :: "visit list \<Rightarrow> string option" where
  "firstFailure [] = None"
| "firstFailure (v # vs) =
     (case failure v of Some message \<Rightarrow> Some message | None \<Rightarrow> firstFailure vs)"

fun beforeFailure :: "visit list \<Rightarrow> visit list" where
  "beforeFailure [] = []"
| "beforeFailure (v # vs) =
     (case failure v of Some message \<Rightarrow> [] | None \<Rightarrow> v # beforeFailure vs)"

text \<open>The paths of the manifests, among the visits, that declare the component \<open>name\<close>.\<close>

fun declaring :: "string \<Rightarrow> visit list \<Rightarrow> string list" where
  "declaring name [] = []"
| "declaring name (Manifest filePath (YamlValue (Some declared)) # vs) =
     (if declared = name then filePath # declaring name vs else declaring name vs)"
| "declaring name (v # vs) = declaring name vs"

text \<open>
  The map after the visits \<open>vs\<close>, started from \<open>m\<close>: a needed component, other than
  \<^verbatim>\<open>__proto__\<close>, whose name some visited manifest declares is mapped to the resolved path of
  the last of them; every other key is as it was.
\<close>

definition mapAfter ::
  "scanner \<Rightarrow> visit list \<Rightarrow> (string \<rightharpoonup> string) \<Rightarrow> (string \<rightharpoonup> string)" where
  "mapAfter sc vs m k =
     (if k \<in> set (neededComponents sc) \<and> k \<noteq> ''__proto__''
          \<and> declaring (specifierName k) vs \<noteq> []
        then Some (path_resolve (workingDirectory sc) [last (declaring (specifierName k) vs)])
      else m k)"

subsection \<open>What a run is about to scan\<close>

text \<open>
  Read off the result of \<open>beforeScan\<close>, when the run gets as far as scanning: the
  directories the scan is called with, the list its inner loop reads, and whether the
  pattern it tests accepts a file name.
\<close>

definition scanRoots :: "state + (scanner \<times> string list \<times> state) \<Rightarrow> string list option" where
  "scanRoots r =
     (case r of
        Inl st \<Rightarrow> None
      | Inr (sc, componentSearchDirectories, st) \<Rightarrow>
          Some (defaultSearchDirectories (workingDirectory sc) componentSearchDirectories))"

definition scanRequests :: "state + (scanner \<times> string list \<times> state) \<Rightarrow> string list option" where
  "scanRequests r =
     (case r of
        Inl st \<Rightarrow> None
      | Inr (sc, componentSearchDirectories, st) \<Rightarrow> Some (neededComponents sc))"

definition scanAccepts ::
  "state + (scanner \<times> string list \<times> state) \<Rightarrow> string \<Rightarrow> bool option" where
  "scanAccepts r file =
     (case r of
        Inl st \<Rightarrow> None
      | Inr (sc, componentSearchDirectories, st) \<Rightarrow> Some (fileNameRegex_test sc file))"

text \<open>
  The state of a run that ends after validation with no valid component: the line that
  announces the search, one error line for each token, and the failure.
\<close>

definition noValidComponents :: "string list \<Rightarrow> string list \<Rightarrow> state" where
  "noValidComponents tokens dirs =
     \<lparr>logs = [Info (findingMessage tokens dirs)]
               @ map (\<lambda>t. Error (''Invalid component name: '' @ t)) tokens
               @ [SetFailed ''No valid components provided to search for.''],
      componentMap = Map.empty, foundComponents = []\<rparr>"

text \<open>
  The line that the validation loop writes for a token.
\<close>

definition validationLine :: "string \<Rightarrow> log_line" where
  "validationLine component =
     (if \<not> validComponentRegex_test component
        then Error (''Invalid component name: '' @ component)
      else (case js_split CHR '':'' component of
              name # version # _ \<Rightarrow> ConsoleLog (''Component: '' @ name @ '', Version: '' @ version)
            | _ \<Rightarrow> ConsoleLog (''Component: '' @ component @ '', Version: latest'')))"

section \<open>Properties\<close>

subsection \<open>Splitting\<close>

lemma js_split_not_Nil: "js_split sep s \<noteq> []"
  by (induction s) (auto split: list.splits)

lemma js_split_no_separator: "sep \<notin> set s \<Longrightarrow> js_split sep s = [s]"
  by (induction s) auto

lemma js_split_at_separator:
  "sep \<notin> set a \<Longrightarrow> js_split sep (a @ sep # b) = a # js_split sep b"
  by (induction a) auto

lemma specifierName_takeWhile: "specifierName c = takeWhile (\<lambda>x. x \<noteq> CHR '':'') c"
  unfolding specifierName_def
  by (induction c) (auto split: list.splits simp: js_split_not_Nil)

lemma takeWhile_until: "sep \<notin> set a \<Longrightarrow> takeWhile (\<lambda>c. c \<noteq> sep) (a @ sep # b) = a"
  by (induction a) auto

lemma dropWhile_until:
  "sep \<notin> set a \<Longrightarrow> dropWhile (\<lambda>c. c \<noteq> sep) (a @ sep # b) = sep # b"
  by (induction a) auto

subsection \<open>Validation\<close>

lemma colon_not_componentChar: "\<not> componentChar CHR '':''"
  by (simp add: componentChar_def)

lemma componentChars_no_colon: "list_all componentChar s \<Longrightarrow> CHR '':'' \<notin> set s"
  using colon_not_componentChar by (auto simp: list_all_iff)

text \<open>A token that passes the pattern is a name, or a name, one colon and a version.\<close>

lemma valid_shape:
  assumes "validComponentRegex_test t"
  shows "(CHR '':'' \<notin> set t \<and> t \<noteq> [] \<and> list_all componentChar t) \<or>
         (\<exists>name version. t = name @ CHR '':'' # version \<and> name \<noteq> [] \<and> version \<noteq> []
            \<and> list_all componentChar name \<and> list_all componentChar version)"
proof -
  let ?n = "takeWhile componentChar t" and ?r = "dropWhile componentChar t"
  have t: "t = ?n @ ?r" by simp
  have n: "list_all componentChar ?n" by (simp add: list_all_iff) (meson set_takeWhileD)
  from assms have ne: "?n \<noteq> []" by (simp add: validComponentRegex_test_def Let_def)
  show ?thesis
  proof (cases ?r)
    case Nil
    then have "?n = t" by (metis t append_Nil2)
    then have all: "list_all componentChar t" using n by metis
    then have "CHR '':'' \<notin> set t" by (rule componentChars_no_colon)
    then show ?thesis using all ne by auto
  next
    case (Cons c version)
    with assms have "c = CHR '':''" "version \<noteq> []" "list_all componentChar version"
      by (simp_all add: validComponentRegex_test_def Let_def)
    then show ?thesis using t n ne Cons by metis
  qed
qed

lemma valid_step:
  assumes "validComponentRegex_test t"
  shows "(case js_split CHR '':'' t of
            name # version # _ \<Rightarrow> name @ '':'' @ version
          | _ \<Rightarrow> t @ '':latest'') = canonicalSpecifier t"
proof -
  from valid_shape[OF assms] show ?thesis
  proof (elim disjE exE conjE)
    assume "CHR '':'' \<notin> set t"
    then show ?thesis by (simp add: js_split_no_separator canonicalSpecifier_def)
  next
    fix name version
    assume t: "t = name @ CHR '':'' # version" and n: "list_all componentChar name"
      and v: "list_all componentChar version"
    have nn: "CHR '':'' \<notin> set name" and vv: "CHR '':'' \<notin> set version"
      using n v by (simp_all add: componentChars_no_colon)
    have "js_split CHR '':'' t = [name, version]"
      using nn vv by (simp add: t js_split_at_separator js_split_no_separator)
    moreover have "takeWhile (\<lambda>c. c \<noteq> CHR '':'') t = name"
      using nn by (simp add: t takeWhile_until)
    moreover have "dropWhile (\<lambda>c. c \<noteq> CHR '':'') t = CHR '':'' # version"
      using nn by (simp add: t dropWhile_until)
    ultimately show ?thesis by (simp add: canonicalSpecifier_def t)
  qed
qed

lemma validateComponents_fst:
  "fst (validateComponents tokens acc st)
     = acc @ map canonicalSpecifier (filter validComponentRegex_test tokens)"
proof (induction tokens arbitrary: acc st)
  case Nil
  then show ?case by simp
next
  case (Cons t tokens)
  show ?case
  proof (cases "validComponentRegex_test t")
    case False
    then show ?thesis using Cons.IH by simp
  next
    case True
    from valid_step[OF True] show ?thesis using True Cons.IH
      by (auto split: list.splits)
  qed
qed

lemma validateComponents_errors:
  "[m. Error m \<leftarrow> logs (snd (validateComponents tokens acc st))]
     = [m. Error m \<leftarrow> logs st]
       @ map (\<lambda>t. ''Invalid component name: '' @ t)
           (filter (\<lambda>t. \<not> validComponentRegex_test t) tokens)"
  by (induction tokens arbitrary: acc st) (auto simp: emit_def split: list.splits)

lemma validateComponents_map:
  "componentMap (snd (validateComponents tokens acc st)) = componentMap st
   \<and> foundComponents (snd (validateComponents tokens acc st)) = foundComponents st"
  by (induction tokens arbitrary: acc st) (auto simp: emit_def split: list.splits)

subsection \<open>The scan as a walk over the visits\<close>

lemma firstFailure_append:
  "firstFailure (a @ b) = (case firstFailure a of Some m \<Rightarrow> Some m | None \<Rightarrow> firstFailure b)"
  by (induction a) (auto split: option.splits)

lemma beforeFailure_append:
  "beforeFailure (a @ b) = (case firstFailure a of Some m \<Rightarrow> beforeFailure a | None \<Rightarrow> a @ beforeFailure b)"
  by (induction a) (auto split: option.splits)

lemma beforeFailure_all: "firstFailure vs = None \<Longrightarrow> beforeFailure vs = vs"
  by (induction vs) (auto split: option.splits)

lemma declaring_append: "declaring name (a @ b) = declaring name a @ declaring name b"
  by (induction name a rule: declaring.induct) auto

lemma componentMap_emit [simp]: "componentMap (emit l st) = componentMap st"
  by (simp add: emit_def)

lemma recordMatches_None [simp]: "recordMatches wd needed None filePath st = st"
  by (induction needed) auto

lemma recordMatches_map:
  "componentMap (recordMatches wd needed (Some declared) filePath st) k
     = (if k \<in> set needed \<and> k \<noteq> ''__proto__'' \<and> specifierName k = declared
          then Some (path_resolve wd [filePath])
        else componentMap st k)"
  by (induction needed arbitrary: st) (auto simp: setProperty_def)

lemma mapAfter_append:
  "mapAfter sc (a @ b) m = mapAfter sc b (mapAfter sc a m)"
  by (auto simp: mapAfter_def declaring_append fun_eq_iff)

lemma mapAfter_Cons: "mapAfter sc (v # vs) m = mapAfter sc vs (mapAfter sc [v] m)"
  by (metis append_Cons append_Nil mapAfter_append)

lemma mapAfter_Nil [simp]: "mapAfter sc [] m = m"
  by (auto simp: mapAfter_def fun_eq_iff)

lemma files_characterised:
  "searchForComponent_files sc dir files st = (c, st') \<Longrightarrow>
     c = (case firstFailure (visits (fileNameRegex_test sc) dir files) of
            None \<Rightarrow> Normal | Some m \<Rightarrow> Throw m)
     \<and> componentMap st'
         = mapAfter sc (beforeFailure (visits (fileNameRegex_test sc) dir files)) (componentMap st)"
proof (induction sc dir files st arbitrary: c st' rule: searchForComponent_files.induct)
  case (1 sc dir st)
  then show ?case by simp
next
  case (2 sc dir name entries files st)
  let ?fp = "path_join [dir, name]"
  let ?st1 = "if logChecked sc then emit (ConsoleLog (''Checking file: '' @ ?fp)) st else st"
  obtain c1 st2 where r1: "searchForComponent_files sc ?fp entries ?st1 = (c1, st2)"
    by (cases "searchForComponent_files sc ?fp entries ?st1") auto
  from "2.IH"(1)[OF refl refl r1]
  have h1: "c1 = (case firstFailure (visits (fileNameRegex_test sc) ?fp entries) of
                   None \<Rightarrow> Normal | Some m \<Rightarrow> Throw m)"
    and m1: "componentMap st2 = mapAfter sc (beforeFailure (visits (fileNameRegex_test sc) ?fp entries)) (componentMap st)"
    by (auto split: if_splits)
  show ?case
  proof (cases c1)
    case Normal
    then have nf: "firstFailure (visits (fileNameRegex_test sc) ?fp entries) = None"
      using h1 by (auto split: option.splits)
    from "2.prems" r1 Normal have r2: "searchForComponent_files sc dir files st2 = (c, st')"
      by (simp add: Let_def)
    from "2.IH"(2)[OF refl refl r1[symmetric] _ r2] Normal
    have "c = (case firstFailure (visits (fileNameRegex_test sc) dir files) of
                   None \<Rightarrow> Normal | Some m \<Rightarrow> Throw m)"
      and "componentMap st' = mapAfter sc (beforeFailure (visits (fileNameRegex_test sc) dir files)) (componentMap st2)"
      by auto
    then show ?thesis using nf m1
      by (simp add: firstFailure_append beforeFailure_append mapAfter_append beforeFailure_all)
  next
    case (Throw m)
    then have ff: "firstFailure (visits (fileNameRegex_test sc) ?fp entries) = Some m"
      using h1 by (auto split: option.splits)
    from "2.prems" r1 Throw have "c = Throw m" "st' = st2"
      by (simp_all add: Let_def)
    then show ?thesis using ff m1
      by (simp add: firstFailure_append beforeFailure_append)
  qed
next
  case (3 sc dir name content files st)
  let ?fp = "path_join [dir, name]"
  let ?st1 = "if logChecked sc then emit (ConsoleLog (''Checking file: '' @ ?fp)) st else st"
  have st1: "componentMap ?st1 = componentMap st" by simp
  show ?case
  proof (cases "fileNameRegex_test sc name")
    case False
    with "3.prems" have r: "searchForComponent_files sc dir files ?st1 = (c, st')"
      by (simp add: Let_def)
    from "3.IH"(2)[OF refl refl False r] show ?thesis using False st1 by simp
  next
    case True
    show ?thesis
    proof (cases content)
      case (YamlError message)
      with "3.prems" True show ?thesis by (auto simp: Let_def)
    next
      case YamlNull
      with "3.prems" True show ?thesis by (auto simp: Let_def)
    next
      case (YamlValue component)
      with "3.prems" True
      have r: "searchForComponent_files sc dir files
                 (recordMatches (workingDirectory sc) (neededComponents sc) component ?fp ?st1)
               = (c, st')"
        by (simp add: Let_def)
      have step: "componentMap (recordMatches (workingDirectory sc) (neededComponents sc) component ?fp ?st1)
                  = mapAfter sc [Manifest ?fp (YamlValue component)] (componentMap st)"
      proof (cases component)
        case None
        then show ?thesis by (simp add: mapAfter_def fun_eq_iff)
      next
        case (Some declared)
        then show ?thesis
          by (auto simp: mapAfter_def fun_eq_iff recordMatches_map)
      qed
      have cons: "mapAfter sc (Manifest ?fp (YamlValue component) # beforeFailure (visits (fileNameRegex_test sc) dir files)) (componentMap st)
                  = mapAfter sc (beforeFailure (visits (fileNameRegex_test sc) dir files))
                      (mapAfter sc [Manifest ?fp (YamlValue component)] (componentMap st))"
        by (rule mapAfter_Cons)
      from "3.IH"(1)[OF refl refl True YamlValue r]
      have "c = (case firstFailure (visits (fileNameRegex_test sc) dir files) of
                   None \<Rightarrow> Normal | Some m \<Rightarrow> Throw m)"
        and "componentMap st' = mapAfter sc (beforeFailure (visits (fileNameRegex_test sc) dir files))
               (componentMap (recordMatches (workingDirectory sc) (neededComponents sc) component ?fp ?st1))"
        by simp_all
      then show ?thesis
        using True YamlValue by (simp add: step cons)
    qed
  qed
qed


lemma searchForComponent_characterised:
  "searchForComponent sc fs dir st = (c, st') \<Longrightarrow>
     c = (case firstFailure (rootVisits (fileNameRegex_test sc) fs dir) of
            None \<Rightarrow> Normal | Some m \<Rightarrow> Throw m)
     \<and> componentMap st'
         = mapAfter sc (beforeFailure (rootVisits (fileNameRegex_test sc) fs dir)) (componentMap st)"
  unfolding searchForComponent_def rootVisits_def
  by (auto split: option.splits node.splits dest: files_characterised)

lemma searchDirectories_characterised:
  "searchDirectories sc fs dirs st = (c, st') \<Longrightarrow>
     c = (case firstFailure (allVisits (fileNameRegex_test sc) fs dirs) of
            None \<Rightarrow> Normal | Some m \<Rightarrow> Throw m)
     \<and> componentMap st'
         = mapAfter sc (beforeFailure (allVisits (fileNameRegex_test sc) fs dirs)) (componentMap st)"
proof (induction dirs arbitrary: st c st')
  case Nil
  then show ?case by (simp add: allVisits_def)
next
  case (Cons d dirs)
  obtain c1 st1 where r1: "searchForComponent sc fs d st = (c1, st1)"
    by (cases "searchForComponent sc fs d st") auto
  note h1 = searchForComponent_characterised[OF r1]
  have av: "allVisits (fileNameRegex_test sc) fs (d # dirs)
            = rootVisits (fileNameRegex_test sc) fs d @ allVisits (fileNameRegex_test sc) fs dirs"
    by (simp add: allVisits_def)
  show ?case
  proof (cases c1)
    case Normal
    then have nf: "firstFailure (rootVisits (fileNameRegex_test sc) fs d) = None"
      using h1 by (auto split: option.splits)
    from Cons.prems r1 Normal have r2: "searchDirectories sc fs dirs st1 = (c, st')" by simp
    from Cons.IH[OF r2] h1 nf show ?thesis
      by (simp add: av firstFailure_append beforeFailure_append mapAfter_append beforeFailure_all)
  next
    case (Throw m)
    then have ff: "firstFailure (rootVisits (fileNameRegex_test sc) fs d) = Some m"
      using h1 by (auto split: option.splits)
    from Cons.prems r1 Throw have "c = Throw m" "st' = st1" by simp_all
    then show ?thesis using ff h1
      by (simp add: av firstFailure_append beforeFailure_append)
  qed
qed

lemma componentMap_warnNotFound [simp]:
  "componentMap (warnNotFound components names st) = componentMap st"
  by (induction names arbitrary: st) auto

lemma findComponents_characterised:
  "findComponents sc fs dirs st = (c, st') \<Longrightarrow>
     c = (case firstFailure (allVisits (fileNameRegex_test sc) fs
                               (defaultSearchDirectories (workingDirectory sc) dirs)) of
            None \<Rightarrow> Normal | Some m \<Rightarrow> Throw m)
     \<and> componentMap st'
         = mapAfter sc (beforeFailure (allVisits (fileNameRegex_test sc) fs
                               (defaultSearchDirectories (workingDirectory sc) dirs))) (componentMap st)"
  unfolding findComponents_def
  by (auto split: prod.splits completion.splits dest!: searchDirectories_characterised)

lemma resolve_loop_absolute:
  "path_isAbsolute wd \<Longrightarrow> snd (resolve_loop (ps @ [wd]) acc)"
  by (induction ps arbitrary: acc) (auto simp: path_isAbsolute_def split: list.splits)

lemma path_resolve_absolute:
  "path_isAbsolute wd \<Longrightarrow> path_isAbsolute (path_resolve wd args)"
  using resolve_loop_absolute[of wd "rev args" "[]"]
  by (auto simp: path_resolve_def path_isAbsolute_def Let_def split: prod.splits)


subsection \<open>Example inputs\<close>

text \<open>
  A scanner as \<^verbatim>\<open>part_000\<close> sets it up, three trees under \<^verbatim>\<open>/repo\<close>, and an environment
  whose search directory and repository path are \<^verbatim>\<open>/repo\<close>.
\<close>

definition exampleScanner :: scanner where
  "exampleScanner =
     \<lparr>logChecked = True, fileNameRegex_test = defaultComponentFileNameRegex_part_000_test,
      neededComponents = [''foo:latest'', ''bar:1''], workingDirectory = ''/repo''\<rparr>"

definition exampleTree :: filesystem where
  "exampleTree =
     (\<lambda>p. if p = ''/repo''
          then Some (Dir [(''a'', Dir [(''.component.yml'', File (YamlValue (Some ''foo'')))]),
                          (''README.md'', File (YamlError ''not yaml'')),
                          (''b'', Dir [(''.component.yaml'', File (YamlValue (Some ''foo'')))])])
          else None)"

definition treeWithoutField :: filesystem where
  "treeWithoutField =
     (\<lambda>p. if p = ''/repo''
          then Some (Dir [(''.component.yml'', File (YamlValue None)),
                          (''z'', Dir [(''.component.yml'', File (YamlValue (Some ''foo'')))])])
          else None)"

definition treeWithBrokenManifest :: filesystem where
  "treeWithBrokenManifest =
     (\<lambda>p. if p = ''/repo''
          then Some (Dir [(''a'', Dir [(''.component.yml'', File (YamlValue (Some ''foo'')))]),
                          (''.component.yaml'', File (YamlError ''bad indentation'')),
                          (''z'', Dir [(''.component.yml'', File (YamlValue (Some ''foo'')))])])
          else None)"

definition exampleEnvironment :: "string \<Rightarrow> environment" where
  "exampleEnvironment components =
     \<lparr>INPUT_COMPONENTS = Some components,
      INPUT_COMPONENT_SEARCH_DIRECTORIES = Some ''/repo'',
      INPUT_COMPONENT_FILE_NAME_REGEX = None,
      GITHUB_WORKSPACE = Some ''/repo'', cwd = ''/repo''\<rparr>"

text \<open>
  Environments and trees for the examples below, and two regular expression engines: one
  that compiles nothing, and one that knows the single pattern \<^verbatim>\<open>^manifest[.]json$\<close>, which
  accepts the name \<^verbatim>\<open>manifest.json\<close> and no other.
\<close>

definition blankEnvironment :: environment where
  "blankEnvironment =
     \<lparr>INPUT_COMPONENTS = Some ''   '', INPUT_COMPONENT_SEARCH_DIRECTORIES = None,
      INPUT_COMPONENT_FILE_NAME_REGEX = None, GITHUB_WORKSPACE = None, cwd = ''/work''\<rparr>"

definition relativeEnvironment :: environment where
  "relativeEnvironment =
     \<lparr>INPUT_COMPONENTS = Some ''foo'',
      INPUT_COMPONENT_SEARCH_DIRECTORIES = Some ''packages, /opt/shared'',
      INPUT_COMPONENT_FILE_NAME_REGEX = None, GITHUB_WORKSPACE = None, cwd = ''/work''\<rparr>"

definition manifestEnvironment :: environment where
  "manifestEnvironment =
     \<lparr>INPUT_COMPONENTS = Some ''foo:latest'',
      INPUT_COMPONENT_SEARCH_DIRECTORIES = Some ''/repo'',
      INPUT_COMPONENT_FILE_NAME_REGEX = Some ''^manifest[.]json$'',
      GITHUB_WORKSPACE = Some ''/repo'', cwd = ''/repo''\<rparr>"

definition emptyTree :: filesystem where
  "emptyTree = (\<lambda>p. None)"

definition manifestTree :: filesystem where
  "manifestTree =
     (\<lambda>p. if p = ''/repo''
          then Some (Dir [(''manifest.json'', File (YamlValue (Some ''foo'')))])
          else None)"

definition alphaTree :: filesystem where
  "alphaTree =
     (\<lambda>p. if p = ''/repo''
          then Some (Dir [(''component.yaml'', File (YamlValue (Some ''alpha''))),
                          (''.component.yaml'', File (YamlValue (Some ''alpha'')))])
          else None)"

definition silentEngine :: "string \<Rightarrow> string + (string \<Rightarrow> bool)" where
  "silentEngine source = Inl ''Invalid regular expression''"

definition manifestEngine :: "string \<Rightarrow> string + (string \<Rightarrow> bool)" where
  "manifestEngine source =
     (if source = ''^manifest[.]json$'' then Inr (\<lambda>file. file = ''manifest.json'')
      else Inl ''Invalid regular expression'')"

definition protoEnvironment :: environment where
  "protoEnvironment =
     \<lparr>INPUT_COMPONENTS = Some ''__proto__'',
      INPUT_COMPONENT_SEARCH_DIRECTORIES = Some ''/repo'',
      INPUT_COMPONENT_FILE_NAME_REGEX = None,
      GITHUB_WORKSPACE = Some ''/repo'', cwd = ''/repo''\<rparr>"

definition protoTree :: filesystem where
  "protoTree =
     (\<lambda>p. if p = ''/repo''
          then Some (Dir [(''a'', Dir [(''component.yml'', File (YamlValue (Some ''__proto__''))),
                                       (''.component.yml'', File (YamlValue (Some ''__proto__'')))]),
                          (''b'', Dir [(''component.yml'', File (YamlValue (Some ''__proto__''))),
                                       (''.component.yml'', File (YamlValue (Some ''__proto__'')))])])
          else None)"

text \<open>
  After a scan that completes, a needed component other than \<^verbatim>\<open>__proto__\<close> whose name is
  declared by one or more visited manifests is mapped to the resolved path of the one
  visited last, in depth-first order over the search directories, and that path is
  absolute: each later match has overwritten the earlier one.
\<close>

lemma last_match_recorded:
  assumes "fst (searchDirectories sc fs dirs st) = Normal"
    and "k \<in> set (neededComponents sc)"
    and "k \<noteq> ''__proto__''"
    and "declaring (specifierName k) (allVisits (fileNameRegex_test sc) fs dirs) \<noteq> []"
    and "path_isAbsolute (workingDirectory sc)"
  shows "componentMap (snd (searchDirectories sc fs dirs st)) k
           = Some (path_resolve (workingDirectory sc)
                     [last (declaring (specifierName k)
                              (allVisits (fileNameRegex_test sc) fs dirs))])
         \<and> path_isAbsolute
              (path_resolve (workingDirectory sc)
                 [last (declaring (specifierName k)
                          (allVisits (fileNameRegex_test sc) fs dirs))])"
proof -
  obtain c st' where r: "searchDirectories sc fs dirs st = (c, st')"
    by (cases "searchDirectories sc fs dirs st") auto
  note h = searchDirectories_characterised[OF r]
  from assms(1) r have "c = Normal" by simp
  then have "firstFailure (allVisits (fileNameRegex_test sc) fs dirs) = None"
    using h by (auto split: option.splits)
  then have "beforeFailure (allVisits (fileNameRegex_test sc) fs dirs)
             = allVisits (fileNameRegex_test sc) fs dirs"
    by (rule beforeFailure_all)
  then have "componentMap st'
               = mapAfter sc (allVisits (fileNameRegex_test sc) fs dirs) (componentMap st)"
    using h by simp
  then show ?thesis
    using assms(2,3,4,5) r by (simp add: mapAfter_def path_resolve_absolute)
qed

text \<open>The key \<^verbatim>\<open>__proto__\<close> is never recorded.\<close>

lemma proto_never_recorded:
  "componentMap (snd (searchDirectories sc fs dirs st)) ''__proto__''
     = componentMap st ''__proto__''"
proof -
  obtain c st' where r: "searchDirectories sc fs dirs st = (c, st')"
    by (cases "searchDirectories sc fs dirs st") auto
  from searchDirectories_characterised[OF r] r show ?thesis
    by (simp add: mapAfter_def)
qed

text \<open>
  C7 at a failing input. In \<^verbatim>\<open>src/main.ts\<close> the keys are the raw tokens, and \<^verbatim>\<open>__proto__\<close> is a
  valid one. Two manifests declare the component \<^verbatim>\<open>__proto__\<close>; both matches are seen
  (the name is pushed twice) and nothing throws, but the map has no path for the key,
  neither the last manifest's nor any other. \<^verbatim>\<open>part_000\<close> records the last manifest under
  \<^verbatim>\<open>__proto__:latest\<close>.
\<close>

theorem main_ts_records_nothing_for_proto:
  "scanRequests (beforeScan_main_ts silentEngine protoEnvironment) = Some [''__proto__'']
   \<and> foundComponents (run_main_ts silentEngine protoEnvironment protoTree)
       = [''__proto__'', ''__proto__'']
   \<and> [m. SetFailed m \<leftarrow> logs (run_main_ts silentEngine protoEnvironment protoTree)] = []
   \<and> componentMap (run_main_ts silentEngine protoEnvironment protoTree) ''__proto__'' = None
   \<and> componentMap (run_main_ts silentEngine protoEnvironment protoTree) ''__proto__:latest'' = None
   \<and> componentMap (run_part_000 protoEnvironment protoTree) ''__proto__:latest''
       = Some ''/repo/b/.component.yml''"
  by code_simp

text \<open>
  The invariant of the match mapping, relative to the visits made so far: every key is
  one of the needed components, every value is an absolute path, and it is the resolved
  path of a visited manifest that declares the name of the key.
\<close>

definition mapInvariant :: "scanner \<Rightarrow> visit list \<Rightarrow> (string \<rightharpoonup> string) \<Rightarrow> bool" where
  "mapInvariant sc vs m =
     (\<forall>k p. m k = Some p \<longrightarrow>
        k \<in> set (neededComponents sc) \<and> path_isAbsolute p \<and>
        (\<exists>filePath \<in> set (declaring (specifierName k) vs).
           p = path_resolve (workingDirectory sc) [filePath]))"

lemma mapInvariant_mapAfter:
  assumes "path_isAbsolute (workingDirectory sc)" and "mapInvariant sc vs m"
  shows "mapInvariant sc (vs @ ws) (mapAfter sc ws m)"
  unfolding mapInvariant_def
proof (intro allI impI)
  fix k p
  assume kp: "mapAfter sc ws m k = Some p"
  show "k \<in> set (neededComponents sc) \<and> path_isAbsolute p \<and>
        (\<exists>filePath \<in> set (declaring (specifierName k) (vs @ ws)).
           p = path_resolve (workingDirectory sc) [filePath])"
  proof (cases "k \<in> set (neededComponents sc) \<and> k \<noteq> ''__proto__''
                 \<and> declaring (specifierName k) ws \<noteq> []")
    case True
    then have p: "p = path_resolve (workingDirectory sc) [last (declaring (specifierName k) ws)]"
      using kp by (simp add: mapAfter_def)
    have "last (declaring (specifierName k) ws) \<in> set (declaring (specifierName k) (vs @ ws))"
      using True by (simp add: declaring_append)
    then show ?thesis using True p assms(1) by (auto simp: path_resolve_absolute)
  next
    case False
    then have "m k = Some p" using kp by (auto simp: mapAfter_def)
    then show ?thesis using assms(2) by (auto simp: mapInvariant_def declaring_append)
  qed
qed

lemma recordMatches_mapAfter:
  "componentMap (recordMatches (workingDirectory sc) (neededComponents sc) component filePath st)
     = mapAfter sc [Manifest filePath (YamlValue component)] (componentMap st)"
proof (cases component)
  case None
  then show ?thesis by (simp add: mapAfter_def fun_eq_iff)
next
  case (Some declared)
  then show ?thesis by (auto simp: mapAfter_def fun_eq_iff recordMatches_map)
qed

lemma componentMap_catch [simp]: "componentMap (catch r) = componentMap (snd r)"
  by (cases r) (auto simp: catch_def split: completion.splits)

text \<open>
  C9. The invariant holds along the scan: if it holds before, it holds after the match
  loop on one manifest, after the loop over a directory, after the loop over the search
  directories, and in the state the run ends in, whether the scan completed or threw.
  It holds of the empty map the scan starts with.
\<close>

theorem componentMap_invariant:
  assumes "path_isAbsolute (workingDirectory sc)" and "mapInvariant sc vs (componentMap st)"
  shows "mapInvariant sc (vs @ [Manifest filePath (YamlValue component)])
           (componentMap (recordMatches (workingDirectory sc) (neededComponents sc)
                            component filePath st))
       \<and> mapInvariant sc (vs @ beforeFailure (visits (fileNameRegex_test sc) dir files))
           (componentMap (snd (searchForComponent_files sc dir files st)))
       \<and> mapInvariant sc (vs @ beforeFailure (allVisits (fileNameRegex_test sc) fs dirs))
           (componentMap (snd (searchDirectories sc fs dirs st)))
       \<and> mapInvariant sc
           (vs @ beforeFailure (allVisits (fileNameRegex_test sc) fs
                                  (defaultSearchDirectories (workingDirectory sc) dirs)))
           (componentMap (catch (findComponents sc fs dirs st)))"
proof (intro conjI)
  show "mapInvariant sc (vs @ [Manifest filePath (YamlValue component)])
           (componentMap (recordMatches (workingDirectory sc) (neededComponents sc)
                            component filePath st))"
    unfolding recordMatches_mapAfter by (rule mapInvariant_mapAfter[OF assms])
next
  obtain c st' where r: "searchForComponent_files sc dir files st = (c, st')"
    by (cases "searchForComponent_files sc dir files st") auto
  from files_characterised[OF r] r
  show "mapInvariant sc (vs @ beforeFailure (visits (fileNameRegex_test sc) dir files))
           (componentMap (snd (searchForComponent_files sc dir files st)))"
    by (simp add: mapInvariant_mapAfter[OF assms])
next
  obtain c st' where r: "searchDirectories sc fs dirs st = (c, st')"
    by (cases "searchDirectories sc fs dirs st") auto
  from searchDirectories_characterised[OF r] r
  show "mapInvariant sc (vs @ beforeFailure (allVisits (fileNameRegex_test sc) fs dirs))
           (componentMap (snd (searchDirectories sc fs dirs st)))"
    by (simp add: mapInvariant_mapAfter[OF assms])
next
  obtain c st' where r: "findComponents sc fs dirs st = (c, st')"
    by (cases "findComponents sc fs dirs st") auto
  from findComponents_characterised[OF r] r
  show "mapInvariant sc
           (vs @ beforeFailure (allVisits (fileNameRegex_test sc) fs
                                  (defaultSearchDirectories (workingDirectory sc) dirs)))
           (componentMap (catch (findComponents sc fs dirs st)))"
    by (simp add: mapInvariant_mapAfter[OF assms])
qed

theorem componentMap_invariant_witness:
  "path_isAbsolute (workingDirectory exampleScanner) \<and> mapInvariant exampleScanner [] (componentMap initial)
   \<and> mapInvariant exampleScanner
        [Manifest ''/repo/a/.component.yml'' (YamlValue (Some ''foo'')),
         Manifest ''/repo/b/.component.yaml'' (YamlValue (Some ''foo''))]
        (componentMap (catch (findComponents exampleScanner exampleTree [''/repo''] initial)))
   \<and> componentMap (catch (findComponents exampleScanner exampleTree [''/repo''] initial)) ''foo:latest''
        = Some ''/repo/b/.component.yaml''"
proof -
  have 1: "path_isAbsolute (workingDirectory exampleScanner)" by code_simp
  have 2: "mapInvariant exampleScanner [] (componentMap initial)"
    by (simp add: mapInvariant_def initial_def)
  have 3: "[] @ beforeFailure (allVisits (fileNameRegex_test exampleScanner) exampleTree
                                  (defaultSearchDirectories (workingDirectory exampleScanner) [''/repo'']))
           = [Manifest ''/repo/a/.component.yml'' (YamlValue (Some ''foo'')),
              Manifest ''/repo/b/.component.yaml'' (YamlValue (Some ''foo''))]"
    by code_simp
  have 4: "componentMap (catch (findComponents exampleScanner exampleTree [''/repo''] initial)) ''foo:latest''
        = Some ''/repo/b/.component.yaml''"
    by code_simp
  from componentMap_invariant[OF 1 2, of "''x''" None "''/repo''" "[]" exampleTree "[''/repo'']"]
  have "mapInvariant exampleScanner
           ([] @ beforeFailure (allVisits (fileNameRegex_test exampleScanner) exampleTree
                                  (defaultSearchDirectories (workingDirectory exampleScanner) [''/repo''])))
           (componentMap (catch (findComponents exampleScanner exampleTree [''/repo''] initial)))"
    by blast
  then show ?thesis using 1 2 4 unfolding 3 by blast
qed


text \<open>
  C4, as stated, fails: a manifest that parses to a value without the field
  \<^verbatim>\<open>component\<close> does not end the run; the manifest after it is read and recorded.
\<close>

theorem missing_component_field_does_not_abort:
  "[m. SetFailed m \<leftarrow> logs (run_part_000 (exampleEnvironment ''foo'') treeWithoutField)] = []
   \<and> componentMap (run_part_000 (exampleEnvironment ''foo'') treeWithoutField) ''foo:latest''
       = Some ''/repo/z/.component.yml''"
  by code_simp

lemma logs_catch_Throw:
  "fst r = Throw message \<Longrightarrow> logs (catch r) = logs (snd r) @ [SetFailed message]"
  by (cases r) (auto simp: catch_def emit_def)

text \<open>
  C4, amended. The scan throws at the first visit, in traversal order, that is a manifest
  the parser rejects, a manifest that parses to \<^verbatim>\<open>null\<close>, or a search directory that is a
  file; the map then holds what the visits before it recorded, and the run ends with
  \<^verbatim>\<open>setFailed\<close> of the thrown message. With no such visit the scan completes. A manifest
  whose value has no string \<^verbatim>\<open>component\<close> records nothing and the scan goes on.
\<close>

theorem scan_aborts_at_first_failure:
  "fst (findComponents sc fs dirs st)
     = (case firstFailure (allVisits (fileNameRegex_test sc) fs
                             (defaultSearchDirectories (workingDirectory sc) dirs)) of
          None \<Rightarrow> Normal | Some message \<Rightarrow> Throw message)
   \<and> componentMap (snd (findComponents sc fs dirs st))
     = mapAfter sc (beforeFailure (allVisits (fileNameRegex_test sc) fs
                                     (defaultSearchDirectories (workingDirectory sc) dirs)))
         (componentMap st)
   \<and> (\<forall>message.
         firstFailure (allVisits (fileNameRegex_test sc) fs
                         (defaultSearchDirectories (workingDirectory sc) dirs)) = Some message
         \<longrightarrow> logs (catch (findComponents sc fs dirs st))
               = logs (snd (findComponents sc fs dirs st)) @ [SetFailed message])
   \<and> recordMatches (workingDirectory sc) (neededComponents sc) None filePath st = st"
proof -
  obtain c st' where r: "findComponents sc fs dirs st = (c, st')"
    by (cases "findComponents sc fs dirs st") auto
  note h = findComponents_characterised[OF r]
  show ?thesis using h r by (auto simp: logs_catch_Throw)
qed

theorem scan_aborts_at_first_failure_witness:
  "fst (findComponents exampleScanner treeWithBrokenManifest [''/repo''] initial) = Throw ''bad indentation''
   \<and> componentMap (snd (findComponents exampleScanner treeWithBrokenManifest [''/repo''] initial)) ''foo:latest''
       = Some ''/repo/a/.component.yml''
   \<and> last (logs (catch (findComponents exampleScanner treeWithBrokenManifest [''/repo''] initial)))
       = SetFailed ''bad indentation''"
proof -
  have 1: "firstFailure (allVisits (fileNameRegex_test exampleScanner) treeWithBrokenManifest
                         (defaultSearchDirectories (workingDirectory exampleScanner) [''/repo'']))
           = Some ''bad indentation''"
    by code_simp
  have 2: "mapAfter exampleScanner (beforeFailure (allVisits (fileNameRegex_test exampleScanner) treeWithBrokenManifest
                         (defaultSearchDirectories (workingDirectory exampleScanner) [''/repo''])))
            (componentMap initial) ''foo:latest'' = Some ''/repo/a/.component.yml''"
    by code_simp
  from scan_aborts_at_first_failure[of exampleScanner treeWithBrokenManifest "[''/repo'']" initial "''x''"]
  show ?thesis using 1 2 by simp
qed

subsection \<open>Reading the inputs\<close>

lemma getInput_optional:
  "getInput name var False = Inr (trim (case var of None \<Rightarrow> [] | Some v \<Rightarrow> v))"
  by (simp add: getInput_def Let_def)

lemma getInput_required:
  "getInput name var True
     = (if (case var of None \<Rightarrow> [] | Some v \<Rightarrow> v) = []
        then Inl (''Input required and not supplied: '' @ name)
        else Inr (trim (case var of None \<Rightarrow> [] | Some v \<Rightarrow> v)))"
  by (simp add: getInput_def Let_def)

lemma leadingWhiteSpace_Nil: "leadingWhiteSpace ws [] = None"
  by (auto simp: leadingWhiteSpace_def find_None_iff)

lemma trimWith_Nil: "trimWith ws [] = []"
  by (subst trimWith.simps) (simp add: leadingWhiteSpace_Nil)

lemma trim_Nil [simp]: "trim [] = []"
  by (simp add: trim_def trimStart_def trimEnd_def trimWith_Nil)

lemma empty_token_invalid [simp]: "\<not> validComponentRegex_test []"
  by (simp add: validComponentRegex_test_def)

lemma validateComponents_all_invalid:
  "filter validComponentRegex_test tokens = [] \<Longrightarrow>
     validateComponents tokens acc st
       = (acc, st\<lparr>logs := logs st @ map (\<lambda>t. Error (''Invalid component name: '' @ t)) tokens\<rparr>)"
proof (induction tokens arbitrary: st)
  case Nil
  then show ?case by simp
next
  case (Cons t tokens)
  then have "\<not> validComponentRegex_test t" and "filter validComponentRegex_test tokens = []"
    by (auto split: if_splits)
  then show ?case using Cons.IH by (simp add: emit_def)
qed

lemma empty_request_filter:
  "fst (validateComponents tokens [] st) = [] \<Longrightarrow> filter validComponentRegex_test tokens = []"
  by (simp add: validateComponents_fst)

lemma validateComponents_snd:
  "snd (validateComponents tokens acc st) = st\<lparr>logs := logs st @ map validationLine tokens\<rparr>"
  by (induction tokens arbitrary: acc st)
     (auto simp: emit_def validationLine_def split: list.splits)

lemma validateComponents_logs:
  "validateComponents tokens acc st = (newComponents, st') \<Longrightarrow>
     logs st' = logs st @ map validationLine tokens"
  using validateComponents_snd[of tokens acc st] by simp

lemma beforeScan_part_000_Inr:
  assumes "beforeScan_part_000 env = Inr (sc, dirs, st)"
  shows "\<exists>componentsInput directoriesInput repositoryPath.
    getInput ''components'' (INPUT_COMPONENTS env) True = Inr componentsInput \<and>
    getInput ''component-search-directories'' (INPUT_COMPONENT_SEARCH_DIRECTORIES env) False
      = Inr directoriesInput \<and>
    GITHUB_WORKSPACE env = Some repositoryPath \<and>
    dirs = resolveSearchDirectories (cwd env) repositoryPath
             (map trim (js_split CHR '','' directoriesInput)) \<and>
    (neededComponents sc, st)
      = validateComponents (map trim (js_split CHR '','' componentsInput)) []
          (emit (Info (findingMessage (map trim (js_split CHR '','' componentsInput)) dirs)) initial) \<and>
    neededComponents sc \<noteq> [] \<and>
    logChecked sc \<and>
    fileNameRegex_test sc = defaultComponentFileNameRegex_part_000_test \<and>
    workingDirectory sc = cwd env"
  using assms unfolding beforeScan_part_000_def Let_def
  by (auto split: sum.splits option.splits prod.splits if_splits)

lemma beforeScan_main_ts_Inr:
  assumes "beforeScan_main_ts RegExp env = Inr (sc, dirs, st)"
  shows "\<exists>componentsInput directoriesInput newComponents.
    getInput ''components'' (INPUT_COMPONENTS env) True = Inr componentsInput \<and>
    getInput ''component-search-directories'' (INPUT_COMPONENT_SEARCH_DIRECTORIES env) False
      = Inr directoriesInput \<and>
    dirs = map trim (js_split CHR '','' directoriesInput) \<and>
    neededComponents sc = map trim (js_split CHR '','' componentsInput) \<and>
    (newComponents, st)
      = validateComponents (map trim (js_split CHR '','' componentsInput)) []
          (emit (Info (findingMessage (map trim (js_split CHR '','' componentsInput)) dirs)) initial) \<and>
    newComponents \<noteq> [] \<and>
    \<not> logChecked sc \<and>
    componentFileNameRegex RegExp env = Inr (fileNameRegex_test sc) \<and>
    workingDirectory sc = cwd env"
  using assms unfolding beforeScan_main_ts_def Let_def
  by (auto split: sum.splits option.splits prod.splits if_splits)

lemma beforeScan_main_ts_Inl:
  "beforeScan_main_ts RegExp env = Inl st \<Longrightarrow>
     logs st = [SetFailed ''Input required and not supplied: components'']
     \<or> (\<exists>m ls. logs st = Info m # ls)"
  unfolding beforeScan_main_ts_def Let_def
  by (auto simp: js_split_not_Nil catch_def emit_def initial_def getInput_required
        getInput_optional
        split: sum.splits prod.splits if_splits dest!: validateComponents_logs)

lemma beforeScan_part_000_Inl:
  "beforeScan_part_000 env = Inl st \<Longrightarrow>
     logs st = [SetFailed ''Input required and not supplied: components'']
     \<or> logs st = [SetFailed ''No repository path found.'']
     \<or> (\<exists>m ls. logs st = Info m # ls)"
  unfolding beforeScan_part_000_def Let_def
  by (auto simp: js_split_not_Nil catch_def emit_def initial_def getInput_required
        getInput_optional
        split: sum.splits prod.splits if_splits option.splits dest!: validateComponents_logs)

text \<open>
  When the components input is read and validation leaves no component, the run, in both
  files (in \<^verbatim>\<open>part_000\<close> once the repository path is known), ends before scanning in a state
  that does not depend on the file system.
\<close>

lemma no_valid_components_state:
  assumes "getInput ''components'' (INPUT_COMPONENTS env) True = Inr componentsInput"
    and "getInput ''component-search-directories''
           (INPUT_COMPONENT_SEARCH_DIRECTORIES env) False = Inr directoriesInput"
    and "fst (validateComponents (map trim (js_split CHR '','' componentsInput)) [] initial) = []"
  shows "beforeScan_main_ts RegExp env
           = Inl (noValidComponents (map trim (js_split CHR '','' componentsInput))
                    (map trim (js_split CHR '','' directoriesInput)))
       \<and> run_main_ts RegExp env fs
           = noValidComponents (map trim (js_split CHR '','' componentsInput))
               (map trim (js_split CHR '','' directoriesInput))
       \<and> (\<forall>repositoryPath. GITHUB_WORKSPACE env = Some repositoryPath \<longrightarrow>
            beforeScan_part_000 env
              = Inl (noValidComponents (map trim (js_split CHR '','' componentsInput))
                       (resolveSearchDirectories (cwd env) repositoryPath
                          (map trim (js_split CHR '','' directoriesInput))))
            \<and> run_part_000 env fs
              = noValidComponents (map trim (js_split CHR '','' componentsInput))
                  (resolveSearchDirectories (cwd env) repositoryPath
                     (map trim (js_split CHR '','' directoriesInput))))"
proof -
  let ?tokens = "map trim (js_split CHR '','' componentsInput)"
  have ne: "?tokens \<noteq> []" by (simp add: js_split_not_Nil)
  have inv: "filter validComponentRegex_test ?tokens = []"
    using assms(3) by (rule empty_request_filter)
  note v = validateComponents_all_invalid[OF inv]
  have a: "beforeScan_main_ts RegExp env
           = Inl (noValidComponents ?tokens (map trim (js_split CHR '','' directoriesInput)))"
    using assms(1,2) ne
    by (simp add: beforeScan_main_ts_def Let_def v noValidComponents_def emit_def initial_def)
  have b: "GITHUB_WORKSPACE env = Some repositoryPath \<Longrightarrow>
            beforeScan_part_000 env
              = Inl (noValidComponents ?tokens
                       (resolveSearchDirectories (cwd env) repositoryPath
                          (map trim (js_split CHR '','' directoriesInput))))" for repositoryPath
    using assms(1,2) ne
    by (simp add: beforeScan_part_000_def Let_def v noValidComponents_def emit_def initial_def)
  show ?thesis using a b by (simp add: run_main_ts_def run_part_000_def)
qed

text \<open>
  C6, as stated, fails. With an empty components input both runs end with the
  required-input failure; with the single invalid token \<^verbatim>\<open>bad name!\<close>, which leaves no
  component, and no repository path, \<^verbatim>\<open>part_000\<close> ends with \<^verbatim>\<open>No repository path found.\<close>
\<close>

theorem empty_input_or_missing_repository_path:
  "logs (run_main_ts silentEngine (exampleEnvironment []) exampleTree)
     = [SetFailed ''Input required and not supplied: components'']
   \<and> logs (run_part_000 (exampleEnvironment []) exampleTree)
     = [SetFailed ''Input required and not supplied: components'']
   \<and> fst (validateComponents (map trim (js_split CHR '','' ''bad name!'')) [] initial) = []
   \<and> logs (run_part_000 ((exampleEnvironment ''bad name!'')\<lparr>GITHUB_WORKSPACE := None\<rparr>)
             exampleTree)
     = [SetFailed ''No repository path found.'']"
  by code_simp

text \<open>
  C6, amended. When the components input is not empty and validation of its trimmed
  tokens leaves no component, the run of \<^verbatim>\<open>src/main.ts\<close>, and the run of \<^verbatim>\<open>part_000\<close> when
  the repository path is set, ends before scanning in a state that does not depend on the
  file system: its lines are the announcement, one error for each token, and the failure
  \<^verbatim>\<open>No valid components provided to search for.\<close>; the map is empty. With the repository
  path unset, \<^verbatim>\<open>part_000\<close> ends with \<^verbatim>\<open>No repository path found.\<close> instead. When the
  components input is empty or unset, both runs end with the required-input failure.
\<close>

theorem empty_request_set_fails:
  "((case INPUT_COMPONENTS env of None \<Rightarrow> [] | Some v \<Rightarrow> v) \<noteq> []
     \<and> fst (validateComponents
              (map trim (js_split CHR '',''
                 (trim (case INPUT_COMPONENTS env of None \<Rightarrow> [] | Some v \<Rightarrow> v))))
              [] initial) = []
    \<longrightarrow> beforeScan_main_ts RegExp env
          = Inl (noValidComponents
                   (map trim (js_split CHR '',''
                      (trim (case INPUT_COMPONENTS env of None \<Rightarrow> [] | Some v \<Rightarrow> v))))
                   (map trim (js_split CHR '',''
                      (trim (case INPUT_COMPONENT_SEARCH_DIRECTORIES env of
                               None \<Rightarrow> [] | Some v \<Rightarrow> v)))))
        \<and> run_main_ts RegExp env fs
          = noValidComponents
              (map trim (js_split CHR '',''
                 (trim (case INPUT_COMPONENTS env of None \<Rightarrow> [] | Some v \<Rightarrow> v))))
              (map trim (js_split CHR '',''
                 (trim (case INPUT_COMPONENT_SEARCH_DIRECTORIES env of
                          None \<Rightarrow> [] | Some v \<Rightarrow> v))))
        \<and> (\<forall>repositoryPath. GITHUB_WORKSPACE env = Some repositoryPath \<longrightarrow>
              beforeScan_part_000 env
                = Inl (noValidComponents
                         (map trim (js_split CHR '',''
                            (trim (case INPUT_COMPONENTS env of None \<Rightarrow> [] | Some v \<Rightarrow> v))))
                         (resolveSearchDirectories (cwd env) repositoryPath
                            (map trim (js_split CHR '',''
                               (trim (case INPUT_COMPONENT_SEARCH_DIRECTORIES env of
                                        None \<Rightarrow> [] | Some v \<Rightarrow> v))))))
              \<and> run_part_000 env fs
                = noValidComponents
                    (map trim (js_split CHR '',''
                       (trim (case INPUT_COMPONENTS env of None \<Rightarrow> [] | Some v \<Rightarrow> v))))
                    (resolveSearchDirectories (cwd env) repositoryPath
                       (map trim (js_split CHR '',''
                          (trim (case INPUT_COMPONENT_SEARCH_DIRECTORIES env of
                                   None \<Rightarrow> [] | Some v \<Rightarrow> v))))))
        \<and> (GITHUB_WORKSPACE env = None \<longrightarrow>
              run_part_000 env fs = emit (SetFailed ''No repository path found.'') initial))
   \<and> ((case INPUT_COMPONENTS env of None \<Rightarrow> [] | Some v \<Rightarrow> v) = []
    \<longrightarrow> run_main_ts RegExp env fs
          = emit (SetFailed ''Input required and not supplied: components'') initial
        \<and> run_part_000 env fs
          = emit (SetFailed ''Input required and not supplied: components'') initial)"
proof (intro conjI impI)
  assume a: "(case INPUT_COMPONENTS env of None \<Rightarrow> [] | Some v \<Rightarrow> v) \<noteq> []
     \<and> fst (validateComponents
              (map trim (js_split CHR '',''
                 (trim (case INPUT_COMPONENTS env of None \<Rightarrow> [] | Some v \<Rightarrow> v))))
              [] initial) = []"
  then have g: "getInput ''components'' (INPUT_COMPONENTS env) True
                  = Inr (trim (case INPUT_COMPONENTS env of None \<Rightarrow> [] | Some v \<Rightarrow> v))"
    by (simp add: getInput_required)
  note s = no_valid_components_state[OF g getInput_optional conjunct2[OF a]]
  from s show "beforeScan_main_ts RegExp env
          = Inl (noValidComponents
                   (map trim (js_split CHR '',''
                      (trim (case INPUT_COMPONENTS env of None \<Rightarrow> [] | Some v \<Rightarrow> v))))
                   (map trim (js_split CHR '',''
                      (trim (case INPUT_COMPONENT_SEARCH_DIRECTORIES env of
                               None \<Rightarrow> [] | Some v \<Rightarrow> v)))))"
    by blast
  from s show "run_main_ts RegExp env fs
          = noValidComponents
              (map trim (js_split CHR '',''
                 (trim (case INPUT_COMPONENTS env of None \<Rightarrow> [] | Some v \<Rightarrow> v))))
              (map trim (js_split CHR '',''
                 (trim (case INPUT_COMPONENT_SEARCH_DIRECTORIES env of
                          None \<Rightarrow> [] | Some v \<Rightarrow> v))))"
    by blast
  from s show "\<forall>repositoryPath. GITHUB_WORKSPACE env = Some repositoryPath \<longrightarrow>
              beforeScan_part_000 env
                = Inl (noValidComponents
                         (map trim (js_split CHR '',''
                            (trim (case INPUT_COMPONENTS env of None \<Rightarrow> [] | Some v \<Rightarrow> v))))
                         (resolveSearchDirectories (cwd env) repositoryPath
                            (map trim (js_split CHR '',''
                               (trim (case INPUT_COMPONENT_SEARCH_DIRECTORIES env of
                                        None \<Rightarrow> [] | Some v \<Rightarrow> v))))))
              \<and> run_part_000 env fs
                = noValidComponents
                    (map trim (js_split CHR '',''
                       (trim (case INPUT_COMPONENTS env of None \<Rightarrow> [] | Some v \<Rightarrow> v))))
                    (resolveSearchDirectories (cwd env) repositoryPath
                       (map trim (js_split CHR '',''
                          (trim (case INPUT_COMPONENT_SEARCH_DIRECTORIES env of
                                   None \<Rightarrow> [] | Some v \<Rightarrow> v)))))"
    by blast
  assume "GITHUB_WORKSPACE env = None"
  then show "run_part_000 env fs = emit (SetFailed ''No repository path found.'') initial"
    using a
    by (simp add: run_part_000_def beforeScan_part_000_def getInput_required getInput_optional
          Let_def js_split_not_Nil)
next
  assume "(case INPUT_COMPONENTS env of None \<Rightarrow> [] | Some v \<Rightarrow> v) = []"
  then show "run_main_ts RegExp env fs
          = emit (SetFailed ''Input required and not supplied: components'') initial"
    by (simp add: run_main_ts_def beforeScan_main_ts_def getInput_required catch_def)
next
  assume "(case INPUT_COMPONENTS env of None \<Rightarrow> [] | Some v \<Rightarrow> v) = []"
  then show "run_part_000 env fs
          = emit (SetFailed ''Input required and not supplied: components'') initial"
    by (simp add: run_part_000_def beforeScan_part_000_def getInput_required catch_def)
qed

theorem empty_request_set_fails_witness:
  "(case INPUT_COMPONENTS (exampleEnvironment ''bad name!, :x'') of None \<Rightarrow> [] | Some v \<Rightarrow> v)
     \<noteq> []
   \<and> run_part_000 (exampleEnvironment ''bad name!, :x'') exampleTree
     = noValidComponents [''bad name!'', '':x''] [''/repo'']
   \<and> run_main_ts silentEngine (exampleEnvironment ''bad name!, :x'') exampleTree
     = noValidComponents [''bad name!'', '':x''] [''/repo'']
   \<and> last (logs (run_part_000 (exampleEnvironment ''bad name!, :x'') exampleTree))
     = SetFailed ''No valid components provided to search for.''"
proof -
  let ?env = "exampleEnvironment ''bad name!, :x''"
  have 1: "(case INPUT_COMPONENTS ?env of None \<Rightarrow> [] | Some v \<Rightarrow> v) \<noteq> []
     \<and> fst (validateComponents
              (map trim (js_split CHR '',''
                 (trim (case INPUT_COMPONENTS ?env of None \<Rightarrow> [] | Some v \<Rightarrow> v))))
              [] initial) = []"
    by code_simp
  have 4: "GITHUB_WORKSPACE ?env = Some ''/repo''" by code_simp
  have 5: "map trim (js_split CHR '',''
             (trim (case INPUT_COMPONENTS ?env of None \<Rightarrow> [] | Some v \<Rightarrow> v)))
           = [''bad name!'', '':x'']" by code_simp
  have 6: "map trim (js_split CHR '',''
             (trim (case INPUT_COMPONENT_SEARCH_DIRECTORIES ?env of None \<Rightarrow> [] | Some v \<Rightarrow> v)))
           = [''/repo'']" by code_simp
  have 7: "resolveSearchDirectories (cwd ?env) ''/repo'' [''/repo''] = [''/repo'']" by code_simp
  from empty_request_set_fails[of ?env silentEngine exampleTree] 1 4
  have "run_main_ts silentEngine ?env exampleTree
          = noValidComponents [''bad name!'', '':x''] [''/repo'']"
    and "run_part_000 ?env exampleTree
          = noValidComponents [''bad name!'', '':x'']
              (resolveSearchDirectories (cwd ?env) ''/repo'' [''/repo''])"
    unfolding 5 6 by blast+
  then show ?thesis using 1 unfolding 7 by (simp add: noValidComponents_def)
qed

text \<open>
  C10, as stated, fails in \<^verbatim>\<open>part_000\<close>: with a components input of blanks and no repository
  path, the run ends with \<^verbatim>\<open>No repository path found.\<close>, which is neither of the two
  failures that the claim allows.
\<close>

theorem blank_components_without_repository_path:
  "logs (run_part_000 blankEnvironment emptyTree) = [SetFailed ''No repository path found.'']"
  by code_simp

text \<open>
  C10, amended. The list of components is never empty, so the guard is never taken: in
  neither file does the run, up to the scan, end in the state of the guard
  \<^verbatim>\<open>No components provided to search for.\<close> A components input that is empty after
  trimming ends the run of \<^verbatim>\<open>src/main.ts\<close> with the required-input failure (when it is
  empty or unset) or with \<^verbatim>\<open>No valid components provided to search for.\<close>; the run of
  \<^verbatim>\<open>part_000\<close> ends the same way, except that with blanks and no repository path it ends
  with \<^verbatim>\<open>No repository path found.\<close>
\<close>

theorem components_guard_never_triggers:
  "map trim (js_split CHR '','' componentsInput) \<noteq> []
   \<and> beforeScan_main_ts RegExp env
       \<noteq> Inl (emit (SetFailed ''No components provided to search for.'') initial)
   \<and> beforeScan_part_000 env
       \<noteq> Inl (emit (SetFailed ''No components provided to search for.'') initial)
   \<and> (trim (case INPUT_COMPONENTS env of None \<Rightarrow> [] | Some v \<Rightarrow> v) = [] \<longrightarrow>
        run_main_ts RegExp env fs
          = (if (case INPUT_COMPONENTS env of None \<Rightarrow> [] | Some v \<Rightarrow> v) = []
             then emit (SetFailed ''Input required and not supplied: components'') initial
             else noValidComponents [[]]
                    (map trim (js_split CHR '',''
                       (trim (case INPUT_COMPONENT_SEARCH_DIRECTORIES env of
                                None \<Rightarrow> [] | Some v \<Rightarrow> v)))))
        \<and> run_part_000 env fs
          = (if (case INPUT_COMPONENTS env of None \<Rightarrow> [] | Some v \<Rightarrow> v) = []
             then emit (SetFailed ''Input required and not supplied: components'') initial
             else case GITHUB_WORKSPACE env of
                    None \<Rightarrow> emit (SetFailed ''No repository path found.'') initial
                  | Some repositoryPath \<Rightarrow>
                      noValidComponents [[]]
                        (resolveSearchDirectories (cwd env) repositoryPath
                           (map trim (js_split CHR '',''
                              (trim (case INPUT_COMPONENT_SEARCH_DIRECTORIES env of
                                       None \<Rightarrow> [] | Some v \<Rightarrow> v)))))))"
proof (intro conjI impI)
  show "map trim (js_split CHR '','' componentsInput) \<noteq> []"
    by (simp add: js_split_not_Nil)
next
  show "beforeScan_main_ts RegExp env
       \<noteq> Inl (emit (SetFailed ''No components provided to search for.'') initial)"
    by (auto dest!: beforeScan_main_ts_Inl simp: emit_def initial_def)
next
  show "beforeScan_part_000 env
       \<noteq> Inl (emit (SetFailed ''No components provided to search for.'') initial)"
    by (auto dest!: beforeScan_part_000_Inl simp: emit_def initial_def)
next
  assume blank: "trim (case INPUT_COMPONENTS env of None \<Rightarrow> [] | Some v \<Rightarrow> v) = []"
  show "run_main_ts RegExp env fs
          = (if (case INPUT_COMPONENTS env of None \<Rightarrow> [] | Some v \<Rightarrow> v) = []
             then emit (SetFailed ''Input required and not supplied: components'') initial
             else noValidComponents [[]]
                    (map trim (js_split CHR '',''
                       (trim (case INPUT_COMPONENT_SEARCH_DIRECTORIES env of
                                None \<Rightarrow> [] | Some v \<Rightarrow> v)))))"
    using blank
    by (simp add: run_main_ts_def beforeScan_main_ts_def getInput_required getInput_optional
          Let_def catch_def noValidComponents_def emit_def initial_def)
next
  assume blank: "trim (case INPUT_COMPONENTS env of None \<Rightarrow> [] | Some v \<Rightarrow> v) = []"
  show "run_part_000 env fs
          = (if (case INPUT_COMPONENTS env of None \<Rightarrow> [] | Some v \<Rightarrow> v) = []
             then emit (SetFailed ''Input required and not supplied: components'') initial
             else case GITHUB_WORKSPACE env of
                    None \<Rightarrow> emit (SetFailed ''No repository path found.'') initial
                  | Some repositoryPath \<Rightarrow>
                      noValidComponents [[]]
                        (resolveSearchDirectories (cwd env) repositoryPath
                           (map trim (js_split CHR '',''
                              (trim (case INPUT_COMPONENT_SEARCH_DIRECTORIES env of
                                       None \<Rightarrow> [] | Some v \<Rightarrow> v))))))"
    using blank
    by (simp add: run_part_000_def beforeScan_part_000_def getInput_required getInput_optional
          Let_def catch_def noValidComponents_def emit_def initial_def split: option.splits)
qed

theorem components_guard_never_triggers_witness:
  "trim (case INPUT_COMPONENTS (blankEnvironment\<lparr>GITHUB_WORKSPACE := Some ''/repo''\<rparr>) of
           None \<Rightarrow> [] | Some v \<Rightarrow> v) = []
   \<and> logs (run_main_ts silentEngine (blankEnvironment\<lparr>GITHUB_WORKSPACE := Some ''/repo''\<rparr>)
             emptyTree)
       = [Info ''Finding components:  in directories: '', Error ''Invalid component name: '',
          SetFailed ''No valid components provided to search for.'']
   \<and> logs (run_part_000 (blankEnvironment\<lparr>GITHUB_WORKSPACE := Some ''/repo''\<rparr>) emptyTree)
       = [Info ''Finding components:  in directories: /repo'', Error ''Invalid component name: '',
          SetFailed ''No valid components provided to search for.'']"
proof -
  have 1: "trim (case INPUT_COMPONENTS (blankEnvironment\<lparr>GITHUB_WORKSPACE := Some ''/repo''\<rparr>) of
           None \<Rightarrow> [] | Some v \<Rightarrow> v) = []"
    by code_simp
  have 2: "(case INPUT_COMPONENTS (blankEnvironment\<lparr>GITHUB_WORKSPACE := Some ''/repo''\<rparr>) of
           None \<Rightarrow> [] | Some v \<Rightarrow> v) \<noteq> []"
    by code_simp
  have 3: "logs (noValidComponents [[]]
                    (map trim (js_split CHR '',''
                       (trim (case INPUT_COMPONENT_SEARCH_DIRECTORIES
                                     (blankEnvironment\<lparr>GITHUB_WORKSPACE := Some ''/repo''\<rparr>) of
                                None \<Rightarrow> [] | Some v \<Rightarrow> v)))))
           = [Info ''Finding components:  in directories: '', Error ''Invalid component name: '',
              SetFailed ''No valid components provided to search for.'']"
    by code_simp
  have 4: "logs (case GITHUB_WORKSPACE (blankEnvironment\<lparr>GITHUB_WORKSPACE := Some ''/repo''\<rparr>) of
                    None \<Rightarrow> emit (SetFailed ''No repository path found.'') initial
                  | Some repositoryPath \<Rightarrow>
                      noValidComponents [[]]
                        (resolveSearchDirectories
                           (cwd (blankEnvironment\<lparr>GITHUB_WORKSPACE := Some ''/repo''\<rparr>))
                           repositoryPath
                           (map trim (js_split CHR '',''
                              (trim (case INPUT_COMPONENT_SEARCH_DIRECTORIES
                                           (blankEnvironment\<lparr>GITHUB_WORKSPACE := Some ''/repo''\<rparr>) of
                                       None \<Rightarrow> [] | Some v \<Rightarrow> v))))))
           = [Info ''Finding components:  in directories: /repo'', Error ''Invalid component name: '',
              SetFailed ''No valid components provided to search for.'']"
    by code_simp
  from components_guard_never_triggers
         [of "[]" silentEngine "blankEnvironment\<lparr>GITHUB_WORKSPACE := Some ''/repo''\<rparr>" emptyTree]
  have "run_main_ts silentEngine (blankEnvironment\<lparr>GITHUB_WORKSPACE := Some ''/repo''\<rparr>) emptyTree
          = noValidComponents [[]]
                    (map trim (js_split CHR '',''
                       (trim (case INPUT_COMPONENT_SEARCH_DIRECTORIES
                                     (blankEnvironment\<lparr>GITHUB_WORKSPACE := Some ''/repo''\<rparr>) of
                                None \<Rightarrow> [] | Some v \<Rightarrow> v))))"
    and "run_part_000 (blankEnvironment\<lparr>GITHUB_WORKSPACE := Some ''/repo''\<rparr>) emptyTree
          = (case GITHUB_WORKSPACE (blankEnvironment\<lparr>GITHUB_WORKSPACE := Some ''/repo''\<rparr>) of
                    None \<Rightarrow> emit (SetFailed ''No repository path found.'') initial
                  | Some repositoryPath \<Rightarrow>
                      noValidComponents [[]]
                        (resolveSearchDirectories
                           (cwd (blankEnvironment\<lparr>GITHUB_WORKSPACE := Some ''/repo''\<rparr>))
                           repositoryPath
                           (map trim (js_split CHR '',''
                              (trim (case INPUT_COMPONENT_SEARCH_DIRECTORIES
                                           (blankEnvironment\<lparr>GITHUB_WORKSPACE := Some ''/repo''\<rparr>) of
                                       None \<Rightarrow> [] | Some v \<Rightarrow> v))))))"
    using 1 2 by simp_all
  then show ?thesis using 1 3 4 by simp
qed

subsection \<open>The search directories\<close>

text \<open>
  C8, as stated, fails in \<^verbatim>\<open>src/main.ts\<close>: a relative search directory is scanned as it was
  supplied, and the run does not fail although no repository path is set.
\<close>

theorem main_ts_scans_relative_directory:
  "scanRoots (beforeScan_main_ts silentEngine relativeEnvironment)
     = Some [''packages'', ''/opt/shared'']
   \<and> \<not> path_isAbsolute ''packages''
   \<and> logs (run_main_ts silentEngine relativeEnvironment emptyTree)
     = [Info ''Finding components: foo in directories: packages, /opt/shared'',
        ConsoleLog ''Component: foo, Version: latest'',
        Warning ''Directory packages does not exist'',
        Warning ''Directory /opt/shared does not exist'']"
  by code_simp

lemma resolveSearchDirectories_map:
  "resolveSearchDirectories wd repositoryPath dirs
     = map (\<lambda>d. if path_isAbsolute d then d else path_resolve wd [repositoryPath, d]) dirs"
  by (induction dirs) auto

lemma resolveSearchDirectories_absolute:
  "path_isAbsolute wd \<Longrightarrow> list_all path_isAbsolute (resolveSearchDirectories wd repositoryPath dirs)"
  by (induction dirs) (auto simp: path_resolve_absolute)

lemma resolveSearchDirectories_Nil [simp]:
  "resolveSearchDirectories wd repositoryPath dirs = [] \<longleftrightarrow> dirs = []"
  by (cases dirs) auto

text \<open>
  C8, amended. In \<^verbatim>\<open>part_000\<close> every directory the scan is called with is absolute when the
  working directory is: a supplied directory that is not absolute is resolved against the
  repository path; and whenever the repository path is unset the run fails before scanning,
  whatever the search directories are: with \<^verbatim>\<open>No repository path found.\<close> when the
  components input is not empty, with the required-input failure when it is empty or
  unset. In \<^verbatim>\<open>src/main.ts\<close> the scan is called with the supplied directories,
  trimmed and otherwise unchanged.
\<close>

theorem search_directories_by_variant:
  "(scanRoots (beforeScan_part_000 env) = Some roots \<and> path_isAbsolute (cwd env)
      \<longrightarrow> list_all path_isAbsolute roots)
   \<and> (scanRoots (beforeScan_part_000 env) = Some roots
        \<and> GITHUB_WORKSPACE env = Some repositoryPath
      \<longrightarrow> roots = map (\<lambda>d. if path_isAbsolute d then d
                             else path_resolve (cwd env) [repositoryPath, d])
                     (map trim (js_split CHR '',''
                        (trim (case INPUT_COMPONENT_SEARCH_DIRECTORIES env of
                                 None \<Rightarrow> [] | Some v \<Rightarrow> v)))))
   \<and> (GITHUB_WORKSPACE env = None
      \<longrightarrow> run_part_000 env fs
            = emit (SetFailed
                      (if (case INPUT_COMPONENTS env of None \<Rightarrow> [] | Some v \<Rightarrow> v) = []
                       then ''Input required and not supplied: components''
                       else ''No repository path found.'')) initial)
   \<and> (scanRoots (beforeScan_main_ts RegExp env) = Some roots'
      \<longrightarrow> roots' = map trim (js_split CHR '',''
                        (trim (case INPUT_COMPONENT_SEARCH_DIRECTORIES env of
                                 None \<Rightarrow> [] | Some v \<Rightarrow> v))))"
proof (intro conjI impI)
  assume a: "scanRoots (beforeScan_part_000 env) = Some roots \<and> path_isAbsolute (cwd env)"
  then obtain sc dirs st where r: "beforeScan_part_000 env = Inr (sc, dirs, st)"
    and roots: "roots = defaultSearchDirectories (workingDirectory sc) dirs"
    by (auto simp: scanRoots_def split: sum.splits)
  from beforeScan_part_000_Inr[OF r] a roots
  show "list_all path_isAbsolute roots"
    by (auto simp: defaultSearchDirectories_def resolveSearchDirectories_absolute)
next
  assume a: "scanRoots (beforeScan_part_000 env) = Some roots
        \<and> GITHUB_WORKSPACE env = Some repositoryPath"
  then obtain sc dirs st where r: "beforeScan_part_000 env = Inr (sc, dirs, st)"
    and roots: "roots = defaultSearchDirectories (workingDirectory sc) dirs"
    by (auto simp: scanRoots_def split: sum.splits)
  from beforeScan_part_000_Inr[OF r] a roots
  show "roots = map (\<lambda>d. if path_isAbsolute d then d
                             else path_resolve (cwd env) [repositoryPath, d])
                     (map trim (js_split CHR '',''
                        (trim (case INPUT_COMPONENT_SEARCH_DIRECTORIES env of
                                 None \<Rightarrow> [] | Some v \<Rightarrow> v))))"
    by (auto simp: defaultSearchDirectories_def resolveSearchDirectories_map getInput_optional
          js_split_not_Nil)
next
  assume "GITHUB_WORKSPACE env = None"
  then show "run_part_000 env fs
            = emit (SetFailed
                      (if (case INPUT_COMPONENTS env of None \<Rightarrow> [] | Some v \<Rightarrow> v) = []
                       then ''Input required and not supplied: components''
                       else ''No repository path found.'')) initial"
    by (simp add: run_part_000_def beforeScan_part_000_def getInput_required getInput_optional
          Let_def js_split_not_Nil catch_def)
next
  assume a: "scanRoots (beforeScan_main_ts RegExp env) = Some roots'"
  then obtain sc dirs st where r: "beforeScan_main_ts RegExp env = Inr (sc, dirs, st)"
    and roots: "roots' = defaultSearchDirectories (workingDirectory sc) dirs"
    by (auto simp: scanRoots_def split: sum.splits)
  from beforeScan_main_ts_Inr[OF r] roots
  show "roots' = map trim (js_split CHR '',''
                        (trim (case INPUT_COMPONENT_SEARCH_DIRECTORIES env of
                                 None \<Rightarrow> [] | Some v \<Rightarrow> v)))"
    by (auto simp: defaultSearchDirectories_def getInput_optional js_split_not_Nil)
qed

theorem search_directories_by_variant_witness:
  "scanRoots (beforeScan_part_000 (relativeEnvironment\<lparr>GITHUB_WORKSPACE := Some ''/repo''\<rparr>))
     = Some [''/repo/packages'', ''/opt/shared'']
   \<and> path_isAbsolute (cwd (relativeEnvironment\<lparr>GITHUB_WORKSPACE := Some ''/repo''\<rparr>))
   \<and> list_all path_isAbsolute [''/repo/packages'', ''/opt/shared'']
   \<and> run_part_000 relativeEnvironment emptyTree
     = emit (SetFailed ''No repository path found.'') initial
   \<and> run_part_000 (relativeEnvironment\<lparr>INPUT_COMPONENTS := None\<rparr>) emptyTree
     = emit (SetFailed ''Input required and not supplied: components'') initial"
proof -
  have 1: "scanRoots (beforeScan_part_000 (relativeEnvironment\<lparr>GITHUB_WORKSPACE := Some ''/repo''\<rparr>))
     = Some [''/repo/packages'', ''/opt/shared'']"
    by code_simp
  have 2: "path_isAbsolute (cwd (relativeEnvironment\<lparr>GITHUB_WORKSPACE := Some ''/repo''\<rparr>))"
    by code_simp
  have 3: "GITHUB_WORKSPACE relativeEnvironment = None"
    "(case INPUT_COMPONENTS relativeEnvironment of None \<Rightarrow> [] | Some v \<Rightarrow> v) \<noteq> []"
    "GITHUB_WORKSPACE (relativeEnvironment\<lparr>INPUT_COMPONENTS := None\<rparr>) = None"
    "(case INPUT_COMPONENTS (relativeEnvironment\<lparr>INPUT_COMPONENTS := None\<rparr>) of
        None \<Rightarrow> [] | Some v \<Rightarrow> v) = []"
    by code_simp+
  from search_directories_by_variant
         [of "relativeEnvironment\<lparr>GITHUB_WORKSPACE := Some ''/repo''\<rparr>"
             "[''/repo/packages'', ''/opt/shared'']"] 1 2
  have a: "list_all path_isAbsolute [''/repo/packages'', ''/opt/shared'']" by blast
  from search_directories_by_variant[of relativeEnvironment _ _ emptyTree] 3(1)
  have "run_part_000 relativeEnvironment emptyTree
          = emit (SetFailed
                      (if (case INPUT_COMPONENTS relativeEnvironment of
                             None \<Rightarrow> [] | Some v \<Rightarrow> v) = []
                       then ''Input required and not supplied: components''
                       else ''No repository path found.'')) initial"
    by blast
  then have b: "run_part_000 relativeEnvironment emptyTree
     = emit (SetFailed ''No repository path found.'') initial"
    using 3(2) by simp
  from search_directories_by_variant
         [of "relativeEnvironment\<lparr>INPUT_COMPONENTS := None\<rparr>" _ _ emptyTree] 3(3)
  have "run_part_000 (relativeEnvironment\<lparr>INPUT_COMPONENTS := None\<rparr>) emptyTree
          = emit (SetFailed
                      (if (case INPUT_COMPONENTS (relativeEnvironment\<lparr>INPUT_COMPONENTS := None\<rparr>) of
                             None \<Rightarrow> [] | Some v \<Rightarrow> v) = []
                       then ''Input required and not supplied: components''
                       else ''No repository path found.'')) initial"
    by blast
  then have c: "run_part_000 (relativeEnvironment\<lparr>INPUT_COMPONENTS := None\<rparr>) emptyTree
     = emit (SetFailed ''Input required and not supplied: components'') initial"
    using 3(4) by simp
  show ?thesis using 1 2 a b c by blast
qed

subsection \<open>The pattern for manifest names\<close>

text \<open>
  C3, as stated, fails in \<^verbatim>\<open>part_000\<close>: with the pattern \<^verbatim>\<open>^manifest[.]json$\<close> supplied, the
  file \<^verbatim>\<open>manifest.json\<close> is not taken for a manifest and nothing is recorded, while
  \<^verbatim>\<open>src/main.ts\<close> takes it and records it.
\<close>

theorem part_000_ignores_file_name_regex:
  "scanAccepts (beforeScan_part_000 manifestEnvironment) ''manifest.json'' = Some False
   \<and> scanAccepts (beforeScan_main_ts manifestEngine manifestEnvironment) ''manifest.json''
       = Some True
   \<and> componentMap (run_part_000 manifestEnvironment manifestTree) ''foo:latest'' = None
   \<and> componentMap (run_main_ts manifestEngine manifestEnvironment manifestTree) ''foo:latest''
       = Some ''/repo/manifest.json''"
  by code_simp

lemma matchLiteral_Some: "matchLiteral lit s = Some r \<longleftrightarrow> s = lit @ r"
  by (auto simp: matchLiteral_def) (metis append_take_drop_id)

lemma matchLiteral_None: "matchLiteral lit s = None \<longleftrightarrow> (\<forall>r. s \<noteq> lit @ r)"
  using matchLiteral_Some[of lit s] by (cases "matchLiteral lit s") auto

lemma matchOptional_set: "r' \<in> set (matchOptional lit s) \<longleftrightarrow> r' = s \<or> s = lit @ r'"
  by (auto simp: matchOptional_def matchLiteral_Some matchLiteral_None split: option.splits)

lemma yamlSuffix_test_iff: "yamlSuffix_test s \<longleftrightarrow> s = ''yml'' \<or> s = ''yaml''"
proof
  assume "yamlSuffix_test s"
  then obtain r r' where "s = ''y'' @ r" "r' \<in> set (matchOptional ''a'' r)" "r' = ''ml''"
    by (auto simp: yamlSuffix_test_def matchLiteral_Some list_ex_iff split: option.splits)
  then show "s = ''yml'' \<or> s = ''yaml''"
    by (auto simp: matchOptional_set)
next
  assume "s = ''yml'' \<or> s = ''yaml''"
  then show "yamlSuffix_test s"
    by (auto simp: yamlSuffix_test_def matchLiteral_def matchOptional_def)
qed

lemma default_main_iff:
  "defaultComponentFileNameRegex_main_test file
     \<longleftrightarrow> file = ''component.yml'' \<or> file = ''component.yaml''"
proof
  assume "defaultComponentFileNameRegex_main_test file"
  then show "file = ''component.yml'' \<or> file = ''component.yaml''"
    by (auto simp: defaultComponentFileNameRegex_main_test_def yamlSuffix_test_iff
          matchLiteral_Some split: option.splits)
next
  assume "file = ''component.yml'' \<or> file = ''component.yaml''"
  then show "defaultComponentFileNameRegex_main_test file"
    by (auto simp: defaultComponentFileNameRegex_main_test_def yamlSuffix_test_iff
          matchLiteral_def)
qed

lemma default_part_000_iff:
  "defaultComponentFileNameRegex_part_000_test file
     \<longleftrightarrow> file = ''.component.yml'' \<or> file = ''.component.yaml''"
proof
  assume "defaultComponentFileNameRegex_part_000_test file"
  then show "file = ''.component.yml'' \<or> file = ''.component.yaml''"
    by (auto simp: defaultComponentFileNameRegex_part_000_test_def yamlSuffix_test_iff
          matchLiteral_Some split: option.splits)
next
  assume "file = ''.component.yml'' \<or> file = ''.component.yaml''"
  then show "defaultComponentFileNameRegex_part_000_test file"
    by (auto simp: defaultComponentFileNameRegex_part_000_test_def yamlSuffix_test_iff
          matchLiteral_def)
qed

lemma beforeScan_part_000_ignores_pattern:
  "beforeScan_part_000 (env\<lparr>INPUT_COMPONENT_FILE_NAME_REGEX := supplied\<rparr>)
     = beforeScan_part_000 env"
  unfolding beforeScan_part_000_def Let_def
  by (simp cong: sum.case_cong option.case_cong prod.case_cong if_cong)

text \<open>
  C3, amended. In \<^verbatim>\<open>src/main.ts\<close> the pattern tested on a file name is the supplied one,
  trimmed and compiled, when that is not empty, and otherwise the default, which accepts
  \<^verbatim>\<open>component.yml\<close> and \<^verbatim>\<open>component.yaml\<close> and nothing else. In \<^verbatim>\<open>part_000\<close> the pattern is
  always the default, which accepts \<^verbatim>\<open>.component.yml\<close> and \<^verbatim>\<open>.component.yaml\<close> and nothing
  else; the run does not depend on the supplied value.
\<close>

theorem file_name_pattern_by_variant:
  "(scanAccepts (beforeScan_main_ts RegExp env) file = Some b \<longrightarrow>
      (if trim (case INPUT_COMPONENT_FILE_NAME_REGEX env of None \<Rightarrow> [] | Some v \<Rightarrow> v) = []
       then b = defaultComponentFileNameRegex_main_test file
       else \<exists>test. RegExp (trim (case INPUT_COMPONENT_FILE_NAME_REGEX env of
                                     None \<Rightarrow> [] | Some v \<Rightarrow> v)) = Inr test
                    \<and> b = test file))
   \<and> (scanAccepts (beforeScan_part_000 env) file = Some b' \<longrightarrow>
        b' = defaultComponentFileNameRegex_part_000_test file)
   \<and> run_part_000 (env\<lparr>INPUT_COMPONENT_FILE_NAME_REGEX := supplied\<rparr>) fs = run_part_000 env fs
   \<and> (defaultComponentFileNameRegex_main_test file
        \<longleftrightarrow> file = ''component.yml'' \<or> file = ''component.yaml'')
   \<and> (defaultComponentFileNameRegex_part_000_test file
        \<longleftrightarrow> file = ''.component.yml'' \<or> file = ''.component.yaml'')"
proof (intro conjI impI)
  assume a: "scanAccepts (beforeScan_main_ts RegExp env) file = Some b"
  then obtain sc dirs st where r: "beforeScan_main_ts RegExp env = Inr (sc, dirs, st)"
    and b: "b = fileNameRegex_test sc file"
    by (auto simp: scanAccepts_def split: sum.splits)
  from beforeScan_main_ts_Inr[OF r]
  have "componentFileNameRegex RegExp env = Inr (fileNameRegex_test sc)" by blast
  then show "if trim (case INPUT_COMPONENT_FILE_NAME_REGEX env of None \<Rightarrow> [] | Some v \<Rightarrow> v) = []
       then b = defaultComponentFileNameRegex_main_test file
       else \<exists>test. RegExp (trim (case INPUT_COMPONENT_FILE_NAME_REGEX env of
                                     None \<Rightarrow> [] | Some v \<Rightarrow> v)) = Inr test
                    \<and> b = test file"
    using b by (auto simp: componentFileNameRegex_def getInput_optional split: if_splits)
next
  assume a: "scanAccepts (beforeScan_part_000 env) file = Some b'"
  then obtain sc dirs st where r: "beforeScan_part_000 env = Inr (sc, dirs, st)"
    and b: "b' = fileNameRegex_test sc file"
    by (auto simp: scanAccepts_def split: sum.splits)
  from beforeScan_part_000_Inr[OF r] b
  show "b' = defaultComponentFileNameRegex_part_000_test file" by auto
next
  show "run_part_000 (env\<lparr>INPUT_COMPONENT_FILE_NAME_REGEX := supplied\<rparr>) fs = run_part_000 env fs"
    by (simp add: run_part_000_def beforeScan_part_000_ignores_pattern)
next
  show "defaultComponentFileNameRegex_main_test file
        \<longleftrightarrow> file = ''component.yml'' \<or> file = ''component.yaml''"
    by (rule default_main_iff)
next
  show "defaultComponentFileNameRegex_part_000_test file
        \<longleftrightarrow> file = ''.component.yml'' \<or> file = ''.component.yaml''"
    by (rule default_part_000_iff)
qed

theorem file_name_pattern_by_variant_witness:
  "scanAccepts (beforeScan_main_ts manifestEngine manifestEnvironment) ''manifest.json''
     = Some True
   \<and> trim (case INPUT_COMPONENT_FILE_NAME_REGEX manifestEnvironment of
              None \<Rightarrow> [] | Some v \<Rightarrow> v) = ''^manifest[.]json$''
   \<and> (\<exists>test. manifestEngine ''^manifest[.]json$'' = Inr test \<and> test ''manifest.json'')
   \<and> scanAccepts (beforeScan_part_000 manifestEnvironment) ''.component.yaml'' = Some True
   \<and> defaultComponentFileNameRegex_part_000_test ''.component.yaml''"
proof -
  have 1: "scanAccepts (beforeScan_main_ts manifestEngine manifestEnvironment) ''manifest.json''
     = Some True" by code_simp
  have 2: "trim (case INPUT_COMPONENT_FILE_NAME_REGEX manifestEnvironment of
              None \<Rightarrow> [] | Some v \<Rightarrow> v) = ''^manifest[.]json$''" by code_simp
  have 3: "scanAccepts (beforeScan_part_000 manifestEnvironment) ''.component.yaml'' = Some True"
    by code_simp
  note t = file_name_pattern_by_variant
             [of manifestEngine manifestEnvironment "''manifest.json''" True]
  from t 1 have "\<exists>test. manifestEngine ''^manifest[.]json$'' = Inr test \<and> test ''manifest.json''"
    unfolding 2 by simp
  moreover
  from file_name_pattern_by_variant[of _ manifestEnvironment "''.component.yaml''" _ True] 3
  have "defaultComponentFileNameRegex_part_000_test ''.component.yaml''" by blast
  ultimately show ?thesis using 1 2 3 by blast
qed

subsection \<open>The keys of the map and the warnings\<close>

lemma part_000_requests_canonical:
  assumes "scanRequests (beforeScan_part_000 env) = Some needed"
  shows "\<exists>componentsInput.
           getInput ''components'' (INPUT_COMPONENTS env) True = Inr componentsInput
           \<and> needed = map canonicalSpecifier
                        (filter validComponentRegex_test
                           (map trim (js_split CHR '','' componentsInput)))"
proof -
  from assms obtain sc dirs st where r: "beforeScan_part_000 env = Inr (sc, dirs, st)"
    and n: "needed = neededComponents sc"
    by (auto simp: scanRequests_def split: sum.splits)
  from beforeScan_part_000_Inr[OF r] obtain componentsInput st0 where
    g: "getInput ''components'' (INPUT_COMPONENTS env) True = Inr componentsInput"
    and v: "(neededComponents sc, st)
              = validateComponents (map trim (js_split CHR '','' componentsInput)) [] st0"
    by blast
  from v have "neededComponents sc
                 = fst (validateComponents (map trim (js_split CHR '','' componentsInput)) [] st0)"
    by (metis fst_conv)
  then show ?thesis using g n by (auto simp: validateComponents_fst)
qed

lemma main_ts_requests_raw:
  assumes "scanRequests (beforeScan_main_ts RegExp env) = Some needed"
  shows "\<exists>componentsInput.
           getInput ''components'' (INPUT_COMPONENTS env) True = Inr componentsInput
           \<and> needed = map trim (js_split CHR '','' componentsInput)"
proof -
  from assms obtain sc dirs st where r: "beforeScan_main_ts RegExp env = Inr (sc, dirs, st)"
    and n: "needed = neededComponents sc"
    by (auto simp: scanRequests_def split: sum.splits)
  from beforeScan_main_ts_Inr[OF r] n show ?thesis by blast
qed

subsection \<open>Raw tokens: splitting and trimming\<close>

lemma js_join_Cons_head: "js_join sep ((c # w) # ws) = c # js_join sep (w # ws)"
  by (cases ws) auto

lemma js_join_js_split: "js_join [sep] (js_split sep s) = s"
proof (induction s)
  case Nil
  then show ?case by simp
next
  case (Cons c cs)
  obtain w ws where sp: "js_split sep cs = w # ws"
    using js_split_not_Nil[of sep cs] by (cases "js_split sep cs") auto
  show ?case using Cons sp by (auto simp: js_join_Cons_head)
qed

lemma js_split_no_separator_inside: "x \<in> set (js_split sep s) \<Longrightarrow> sep \<notin> set x"
  by (induction s arbitrary: x) (auto split: if_splits list.splits)

text \<open>
  No white-space code point of the list is empty or starts another one, and none starts or
  ends with a character of the name pattern: trimming removes exactly the padding around
  a valid token.
\<close>

definition prefixFree :: "string list \<Rightarrow> bool" where
  "prefixFree ws = list_all (\<lambda>w. w \<noteq> [] \<and> list_all (\<lambda>w'. take (length w) w' \<noteq> w \<or> w = w') ws) ws"

lemma prefixFree_whiteSpace: "prefixFree whiteSpace"
  by code_simp

lemma prefixFree_rev_whiteSpace: "prefixFree (map rev whiteSpace)"
  by code_simp

lemma leadingWhiteSpace_at:
  assumes "prefixFree ws" and "w \<in> set ws"
  shows "leadingWhiteSpace ws (w @ s) = Some (length w)"
proof -
  let ?P = "\<lambda>w'. w' \<noteq> [] \<and> take (length w') (w @ s) = w'"
  from assms have wne: "w \<noteq> []" by (auto simp: prefixFree_def list_all_iff)
  then have "?P w" by simp
  then obtain w' where f: "List.find ?P ws = Some w'"
    using assms(2) by (cases "List.find ?P ws") (auto simp: find_None_iff)
  then have w': "w' \<in> set ws" "w' \<noteq> []" "take (length w') (w @ s) = w'"
    by (auto simp: find_Some_iff)
  have "w' = w"
  proof (cases "length w' \<le> length w")
    case True
    then have "take (length w') w = w'" using w'(3) by simp
    then show ?thesis using assms w'(1) by (auto simp: prefixFree_def list_all_iff)
  next
    case False
    then have "take (length w) w' = w" using w'(3)
      by (metis append_eq_conv_conj nat_le_linear take_all take_append take_take min.absorb2 le_refl)
    then show ?thesis using assms w'(1) by (auto simp: prefixFree_def list_all_iff)
  qed
  then show ?thesis using f by (simp add: leadingWhiteSpace_def)
qed

lemma trimWith_padding:
  assumes "prefixFree ws" and "set pad \<subseteq> set ws"
  shows "trimWith ws (concat pad @ s) = trimWith ws s"
  using assms(2)
proof (induction pad)
  case Nil
  then show ?case by simp
next
  case (Cons w pad)
  then have w: "w \<in> set ws" by simp
  have "trimWith ws (w @ concat pad @ s) = trimWith ws (concat pad @ s)"
    by (subst trimWith.simps) (simp add: leadingWhiteSpace_at[OF assms(1) w])
  then show ?case using Cons by simp
qed

lemma trimWith_stops:
  assumes "list_all (\<lambda>w. w \<noteq> [] \<and> hd w \<noteq> c) ws"
  shows "trimWith ws (c # s) = c # s"
proof -
  have "List.find (\<lambda>w. w \<noteq> [] \<and> take (length w) (c # s) = w) ws = None"
    using assms
    by (auto simp: find_None_iff list_all_iff neq_Nil_conv)
  then show ?thesis by (subst trimWith.simps) (simp add: leadingWhiteSpace_def)
qed

lemma whiteSpace_not_componentChar:
  "list_all (\<lambda>w. w \<noteq> [] \<and> \<not> componentChar (hd w)) whiteSpace"
  "list_all (\<lambda>w. w \<noteq> [] \<and> \<not> componentChar (hd w)) (map rev whiteSpace)"
  by code_simp+

lemma whiteSpace_heads:
  "componentChar c \<Longrightarrow> list_all (\<lambda>w. w \<noteq> [] \<and> hd w \<noteq> c) whiteSpace"
  "componentChar c \<Longrightarrow> list_all (\<lambda>w. w \<noteq> [] \<and> hd w \<noteq> c) (map rev whiteSpace)"
  using whiteSpace_not_componentChar by (auto simp: list_all_iff)

lemma valid_ends:
  assumes "validComponentRegex_test t"
  shows "\<exists>c u d. t = c # u \<and> componentChar c \<and> rev t = d # rev (butlast t) \<and> componentChar d"
proof -
  from valid_shape[OF assms]
  have "t \<noteq> [] \<and> componentChar (hd t) \<and> componentChar (last t)"
  proof (elim disjE exE conjE)
    assume "t \<noteq> []" "list_all componentChar t"
    then show ?thesis by (auto simp: list_all_iff)
  next
    fix name version
    assume "t = name @ CHR '':'' # version" "name \<noteq> []" "version \<noteq> []"
      "list_all componentChar name" "list_all componentChar version"
    then show ?thesis by (auto simp: list_all_iff)
  qed
  then show ?thesis
    by (metis list.collapse rev.simps(2) append_butlast_last_id rev_append rev_rev_ident
          append_Cons append_Nil)
qed

lemma trim_padded:
  assumes "validComponentRegex_test t"
    and "set before \<subseteq> set whiteSpace" and "set after \<subseteq> set whiteSpace"
  shows "trim (concat before @ t @ concat after) = t"
proof -
  from valid_ends[OF assms(1)] obtain c u d where
    t: "t = c # u" and c: "componentChar c"
    and r: "rev t = d # rev (butlast t)" and d: "componentChar d"
    by blast
  have "trimStart (concat before @ t @ concat after) = t @ concat after"
    unfolding trimStart_def trimWith_padding[OF prefixFree_whiteSpace assms(2)]
    by (simp add: t trimWith_stops[OF whiteSpace_heads(1)[OF c]])
  moreover
  have "rev (concat after) = concat (map rev (rev after))"
    by (simp add: rev_concat rev_map)
  moreover have "set (map rev (rev after)) \<subseteq> set (map rev whiteSpace)"
    using assms(3) by auto
  ultimately have "trimEnd (trimStart (concat before @ t @ concat after))
                   = rev (trimWith (map rev whiteSpace) (rev t))"
    by (simp add: trimEnd_def trimWith_padding[OF prefixFree_rev_whiteSpace])
  also have "\<dots> = rev (rev t)"
    unfolding r by (simp add: trimWith_stops[OF whiteSpace_heads(2)[OF d]])
  finally show ?thesis by (simp add: trim_def)
qed


text \<open>
  C5. Both files validate the raw tokens, that is the pieces of the input between commas
  (joined by commas they give the input back, and none contains a comma), each trimmed.
  Trimming gives a valid token back from any white space around it. The validation loop
  returns, for the trimmed tokens that pass the pattern and in their order, duplicates
  kept, the canonical form of each: name and version split at the first colon, or the
  token with the version \<^verbatim>\<open>latest\<close>. A token that fails the pattern is left out wherever it
  stands, the loop goes on, and one error line names it. In \<^verbatim>\<open>part_000\<close> this list is the
  one the scan reads.
\<close>

theorem validateComponents_canonical:
  "fst (validateComponents (map trim (js_split CHR '','' componentsInput)) [] st)
     = map canonicalSpecifier
         (filter validComponentRegex_test (map trim (js_split CHR '','' componentsInput)))
   \<and> [m. Error m \<leftarrow> logs (snd (validateComponents
                                   (map trim (js_split CHR '','' componentsInput)) [] st))]
     = [m. Error m \<leftarrow> logs st]
       @ map (\<lambda>t. ''Invalid component name: '' @ t)
           (filter (\<lambda>t. \<not> validComponentRegex_test t)
              (map trim (js_split CHR '','' componentsInput)))
   \<and> js_join '','' (js_split CHR '','' componentsInput) = componentsInput
   \<and> (\<forall>x \<in> set (js_split CHR '','' componentsInput). CHR '','' \<notin> set x)
   \<and> (validComponentRegex_test t \<and> set before \<subseteq> set whiteSpace
        \<and> set after \<subseteq> set whiteSpace
      \<longrightarrow> trim (concat before @ t @ concat after) = t)
   \<and> (scanRequests (beforeScan_part_000 env) = Some needed
      \<longrightarrow> needed = map canonicalSpecifier
                      (filter validComponentRegex_test
                         (map trim (js_split CHR '',''
                            (trim (case INPUT_COMPONENTS env of None \<Rightarrow> [] | Some v \<Rightarrow> v))))))"
proof (intro conjI impI ballI)
  show "fst (validateComponents (map trim (js_split CHR '','' componentsInput)) [] st)
     = map canonicalSpecifier
         (filter validComponentRegex_test (map trim (js_split CHR '','' componentsInput)))"
    by (simp add: validateComponents_fst)
next
  show "[m. Error m \<leftarrow> logs (snd (validateComponents
                                   (map trim (js_split CHR '','' componentsInput)) [] st))]
     = [m. Error m \<leftarrow> logs st]
       @ map (\<lambda>t. ''Invalid component name: '' @ t)
           (filter (\<lambda>t. \<not> validComponentRegex_test t)
              (map trim (js_split CHR '','' componentsInput)))"
    by (rule validateComponents_errors)
next
  show "js_join '','' (js_split CHR '','' componentsInput) = componentsInput"
    by (rule js_join_js_split)
next
  fix x assume "x \<in> set (js_split CHR '','' componentsInput)"
  then show "CHR '','' \<notin> set x" by (rule js_split_no_separator_inside)
next
  assume "validComponentRegex_test t \<and> set before \<subseteq> set whiteSpace
        \<and> set after \<subseteq> set whiteSpace"
  then show "trim (concat before @ t @ concat after) = t"
    by (simp add: trim_padded)
next
  assume a: "scanRequests (beforeScan_part_000 env) = Some needed"
  from part_000_requests_canonical[OF a]
  show "needed = map canonicalSpecifier
                      (filter validComponentRegex_test
                         (map trim (js_split CHR '',''
                            (trim (case INPUT_COMPONENTS env of None \<Rightarrow> [] | Some v \<Rightarrow> v)))))"
    by (auto simp: getInput_required split: if_splits)
qed

theorem validateComponents_canonical_witness:
  "fst (validateComponents (map trim (js_split CHR '','' ''alpha, bad name!,  beta:2.0 ,alpha''))
          [] initial)
     = [''alpha:latest'', ''beta:2.0'', ''alpha:latest'']
   \<and> [m. Error m \<leftarrow> logs (snd (validateComponents
            (map trim (js_split CHR '','' ''alpha, bad name!,  beta:2.0 ,alpha'')) [] initial))]
     = [''Invalid component name: bad name!'']
   \<and> js_split CHR '','' ''alpha, bad name!,  beta:2.0 ,alpha''
     = [''alpha'', '' bad name!'', ''  beta:2.0 '', ''alpha'']
   \<and> trim ''  beta:2.0 '' = ''beta:2.0''
   \<and> scanRequests (beforeScan_part_000
                      (exampleEnvironment ''alpha, bad name!,  beta:2.0 ,alpha''))
     = Some [''alpha:latest'', ''beta:2.0'', ''alpha:latest'']"
proof -
  let ?input = "''alpha, bad name!,  beta:2.0 ,alpha''"
  have 1: "map canonicalSpecifier
             (filter validComponentRegex_test (map trim (js_split CHR '','' ?input)))
           = [''alpha:latest'', ''beta:2.0'', ''alpha:latest'']"
    by code_simp
  have 2: "[m. Error m \<leftarrow> logs initial]
             @ map (\<lambda>t. ''Invalid component name: '' @ t)
                 (filter (\<lambda>t. \<not> validComponentRegex_test t)
                    (map trim (js_split CHR '','' ?input)))
           = [''Invalid component name: bad name!'']"
    by code_simp
  have 3: "js_split CHR '','' ?input = [''alpha'', '' bad name!'', ''  beta:2.0 '', ''alpha'']"
    by code_simp
  have 4: "validComponentRegex_test ''beta:2.0'' \<and> set ['' '', '' ''] \<subseteq> set whiteSpace
           \<and> set ['' ''] \<subseteq> set whiteSpace"
    by code_simp
  have 5: "concat ['' '', '' ''] @ ''beta:2.0'' @ concat ['' ''] = ''  beta:2.0 ''" by simp
  have 6: "scanRequests (beforeScan_part_000 (exampleEnvironment ?input))
           = Some [''alpha:latest'', ''beta:2.0'', ''alpha:latest'']"
    by code_simp
  note t = validateComponents_canonical
             [of ?input initial "''beta:2.0''" "['' '', '' '']" "['' '']"
                 "exampleEnvironment ?input" "[''alpha:latest'', ''beta:2.0'', ''alpha:latest'']"]
  from t 4 have "trim (concat ['' '', '' ''] @ ''beta:2.0'' @ concat ['' '']) = ''beta:2.0''"
    by blast
  then have 7: "trim ''  beta:2.0 '' = ''beta:2.0''" unfolding 5 .
  from t have "fst (validateComponents (map trim (js_split CHR '','' ?input)) [] initial)
     = map canonicalSpecifier
         (filter validComponentRegex_test (map trim (js_split CHR '','' ?input)))"
    and "[m. Error m \<leftarrow> logs (snd (validateComponents
                                   (map trim (js_split CHR '','' ?input)) [] initial))]
     = [m. Error m \<leftarrow> logs initial]
       @ map (\<lambda>t. ''Invalid component name: '' @ t)
           (filter (\<lambda>t. \<not> validComponentRegex_test t)
              (map trim (js_split CHR '','' ?input)))"
    by blast+
  then show ?thesis using 3 6 7 unfolding 1 2 by blast
qed

text \<open>
  C2 at a failing input. For the token \<^verbatim>\<open>alpha\<close>, validation yields \<^verbatim>\<open>alpha:latest\<close>, but the
  scan of \<^verbatim>\<open>src/main.ts\<close> reads the raw tokens: the match is recorded under the key
  \<^verbatim>\<open>alpha\<close> and nothing under \<^verbatim>\<open>alpha:latest\<close>. \<^verbatim>\<open>part_000\<close> reads the validated list and
  records under \<^verbatim>\<open>alpha:latest\<close>.
\<close>

theorem main_ts_keys_are_raw_tokens:
  "scanRequests (beforeScan_main_ts silentEngine (exampleEnvironment ''alpha'')) = Some [''alpha'']
   \<and> fst (validateComponents [''alpha''] [] initial) = [''alpha:latest'']
   \<and> componentMap (run_main_ts silentEngine (exampleEnvironment ''alpha'') alphaTree) ''alpha''
       = Some ''/repo/component.yaml''
   \<and> componentMap (run_main_ts silentEngine (exampleEnvironment ''alpha'') alphaTree)
        ''alpha:latest'' = None
   \<and> scanRequests (beforeScan_part_000 (exampleEnvironment ''alpha'')) = Some [''alpha:latest'']
   \<and> componentMap (run_part_000 (exampleEnvironment ''alpha'') alphaTree) ''alpha:latest''
       = Some ''/repo/.component.yaml''"
  by code_simp

lemma warnNotFound_logs:
  "logs (warnNotFound components names st)
     = logs st @ map (\<lambda>component. Warning (''Component '' @ component @ '' not found''))
                   (filter (\<lambda>component. component \<notin> set components) names)"
  by (induction names arbitrary: st) (auto simp: emit_def)

lemma canonicalSpecifier_has_colon: "CHR '':'' \<in> set (canonicalSpecifier t)"
  by (simp add: canonicalSpecifier_def)

lemma specifierName_no_colon: "CHR '':'' \<notin> set (specifierName c)"
  unfolding specifierName_takeWhile by (induction c) auto

lemma canonical_names_not_listed:
  "specifierName c \<notin> canonicalSpecifier ` set tokens"
  using canonicalSpecifier_has_colon specifierName_no_colon by (metis imageE)

lemma part_000_warns_about_every_component:
  "logs (warnNotFound (map canonicalSpecifier tokens)
           (map specifierName (map canonicalSpecifier tokens)) st)
     = logs st @ map (\<lambda>t. Warning (''Component '' @ specifierName (canonicalSpecifier t)
                                     @ '' not found'')) tokens"
  unfolding warnNotFound_logs
  by (simp add: canonical_names_not_listed filter_map comp_def)

text \<open>
  C1 at a failing input. In \<^verbatim>\<open>part_000\<close> the component \<^verbatim>\<open>foo\<close> is matched and recorded, and
  the warning that it was not found is written all the same. In \<^verbatim>\<open>src/main.ts\<close>, which
  finds no manifest in that tree, \<^verbatim>\<open>foo\<close> is matched by nothing and no warning is written.
\<close>

theorem warning_does_not_depend_on_match:
  "componentMap (run_part_000 (exampleEnvironment ''foo'') exampleTree) ''foo:latest''
     = Some ''/repo/b/.component.yaml''
   \<and> Warning ''Component foo not found''
       \<in> set (logs (run_part_000 (exampleEnvironment ''foo'') exampleTree))
   \<and> componentMap (run_main_ts silentEngine (exampleEnvironment ''foo'') exampleTree) ''foo''
       = None
   \<and> Warning ''Component foo not found''
       \<notin> set (logs (run_main_ts silentEngine (exampleEnvironment ''foo'') exampleTree))"
  by code_simp

subsection \<open>The map at the end of a run\<close>

text \<open>
  Both runs start the scan with an empty map, and neither the warnings nor the \<^verbatim>\<open>catch\<close>
  block touch it: at the end of a run the map is what the visits made before the first
  failure have recorded.
\<close>

lemma scan_starts_with_empty_map:
  assumes "beforeScan_main_ts RegExp env = Inr (sc, dirs, st)
           \<or> beforeScan_part_000 env = Inr (sc, dirs, st)"
  shows "componentMap st = Map.empty \<and> workingDirectory sc = cwd env"
proof -
  have "componentMap (snd (validateComponents tokens [] (emit l initial))) = Map.empty"
    for tokens l
    by (simp add: validateComponents_snd emit_def initial_def)
  then have "(needed, st) = validateComponents tokens [] (emit l initial)
             \<Longrightarrow> componentMap st = Map.empty" for needed tokens l
    by (metis snd_conv)
  then show ?thesis
    using assms beforeScan_main_ts_Inr[of RegExp env sc dirs st]
      beforeScan_part_000_Inr[of env sc dirs st]
    by blast
qed

lemma run_map:
  "beforeScan_main_ts RegExp env = Inr (sc, dirs, st) \<Longrightarrow>
     componentMap (run_main_ts RegExp env fs)
       = mapAfter sc (beforeFailure (allVisits (fileNameRegex_test sc) fs
                                       (defaultSearchDirectories (cwd env) dirs))) Map.empty"
  "beforeScan_part_000 env = Inr (sc, dirs, st) \<Longrightarrow>
     componentMap (run_part_000 env fs)
       = mapAfter sc (beforeFailure (allVisits (fileNameRegex_test sc) fs
                                       (defaultSearchDirectories (cwd env) dirs))) Map.empty"
proof -
  have m: "componentMap (catch (findComponents sc fs dirs st))
            = mapAfter sc (beforeFailure (allVisits (fileNameRegex_test sc) fs
                 (defaultSearchDirectories (workingDirectory sc) dirs))) (componentMap st)"
    using findComponents_characterised[of sc fs dirs st]
    by (cases "findComponents sc fs dirs st") simp
  show "beforeScan_main_ts RegExp env = Inr (sc, dirs, st) \<Longrightarrow>
     componentMap (run_main_ts RegExp env fs)
       = mapAfter sc (beforeFailure (allVisits (fileNameRegex_test sc) fs
                                       (defaultSearchDirectories (cwd env) dirs))) Map.empty"
    using m scan_starts_with_empty_map[of RegExp env sc dirs st]
    by (simp add: run_main_ts_def)
  show "beforeScan_part_000 env = Inr (sc, dirs, st) \<Longrightarrow>
     componentMap (run_part_000 env fs)
       = mapAfter sc (beforeFailure (allVisits (fileNameRegex_test sc) fs
                                       (defaultSearchDirectories (cwd env) dirs))) Map.empty"
    using m scan_starts_with_empty_map[of _ env sc dirs st]
    by (simp add: run_part_000_def)
qed

lemma run_without_scan_map:
  "beforeScan_main_ts RegExp env = Inl st \<Longrightarrow> componentMap st = Map.empty"
  "beforeScan_part_000 env = Inl st \<Longrightarrow> componentMap st = Map.empty"
  unfolding beforeScan_main_ts_def beforeScan_part_000_def Let_def
  by (auto simp: catch_def emit_def initial_def validateComponents_snd
        split: sum.splits prod.splits if_splits option.splits
        dest!: arg_cong[where f = snd])

text \<open>
  In \<^verbatim>\<open>part_000\<close> every key has a colon, so none is \<^verbatim>\<open>__proto__\<close>: after a scan that
  completes, every needed component whose name some visited manifest declares is mapped
  to the resolved path of the last of them.
\<close>

lemma canonicalSpecifier_not_proto: "canonicalSpecifier t \<noteq> ''__proto__''"
proof
  assume "canonicalSpecifier t = ''__proto__''"
  then have "CHR '':'' \<in> set ''__proto__''" using canonicalSpecifier_has_colon[of t] by simp
  then show False by simp
qed

lemma part_000_last_match_recorded:
  assumes "beforeScan_part_000 env = Inr (sc, dirs, st)"
    and "fst (findComponents sc fs dirs st) = Normal"
    and "k \<in> set (neededComponents sc)"
    and "declaring (specifierName k)
           (allVisits (fileNameRegex_test sc) fs (defaultSearchDirectories (cwd env) dirs)) \<noteq> []"
  shows "componentMap (run_part_000 env fs) k
           = Some (path_resolve (cwd env)
                     [last (declaring (specifierName k)
                              (allVisits (fileNameRegex_test sc) fs
                                 (defaultSearchDirectories (cwd env) dirs)))])"
proof -
  have "scanRequests (beforeScan_part_000 env) = Some (neededComponents sc)"
    using assms(1) by (simp add: scanRequests_def)
  from part_000_requests_canonical[OF this] assms(3)
  obtain t where "k = canonicalSpecifier t" by auto
  then have k: "k \<noteq> ''__proto__''" by (simp add: canonicalSpecifier_not_proto)
  have wd: "workingDirectory sc = cwd env"
    using scan_starts_with_empty_map[of _ env sc dirs st] assms(1) by blast
  from findComponents_characterised[of sc fs dirs st] assms(2)
  have "firstFailure (allVisits (fileNameRegex_test sc) fs
                        (defaultSearchDirectories (cwd env) dirs)) = None"
    by (cases "findComponents sc fs dirs st") (auto simp: wd split: option.splits)
  then have "beforeFailure (allVisits (fileNameRegex_test sc) fs
                        (defaultSearchDirectories (cwd env) dirs))
             = allVisits (fileNameRegex_test sc) fs (defaultSearchDirectories (cwd env) dirs)"
    by (rule beforeFailure_all)
  then show ?thesis
    using run_map(2)[OF assms(1), of fs] assms(3,4) k wd by (simp add: mapAfter_def)
qed

end
